theory Spec2Isabelle
  imports Main "HOL-Library.AList" "HOL-Library.Sublist"
begin

section \<open>Regular expressions as the program uses them\<close>

text \<open>
  The program scans the compiler's log and auxiliary files with Python's \<^verbatim>\<open>re\<close> module.
  Its patterns use literal characters, the dot (any character but a newline), \<^verbatim>\<open>\s\<close>,
  the greedy star on a dot, the anchors \<^verbatim>\<open>^\<close> and \<^verbatim>\<open>$\<close> (always under \<^verbatim>\<open>re.M\<close>),
  alternation and capturing groups. The matcher below is the backtracking matcher of
  \<^verbatim>\<open>re\<close> on that fragment: alternatives are tried left to right, a star takes as many
  characters as it can and gives them back one at a time, and the first way to match from the
  leftmost start wins. A string is a list of characters, and a character is a code point below
  256: the white space of \<^verbatim>\<open>\s\<close> and of \<^verbatim>\<open>str.strip\<close> is the white space among these.
\<close>

abbreviation BSL :: char where "BSL \<equiv> CHR 0x5C"
abbreviation NL :: char where "NL \<equiv> CHR 0x0A"
abbreviation DQ :: char where "DQ \<equiv> CHR 0x22"
abbreviation CR :: char where "CR \<equiv> CHR 0x0D"

datatype cls = Chr char | AnyChar | SpaceChar

definition is_space :: "char \<Rightarrow> bool" where
  "is_space x = (x \<in> set [CHR 0x20, CHR 0x09, CHR 0x0A, CHR 0x0B, CHR 0x0C, CHR 0x0D,
                           CHR 0x1C, CHR 0x1D, CHR 0x1E, CHR 0x1F, CHR 0x85, CHR 0xA0])"

fun in_cls :: "cls \<Rightarrow> char \<Rightarrow> bool" where
  "in_cls (Chr c) x = (x = c)"
| "in_cls AnyChar x = (x \<noteq> NL)"
| "in_cls SpaceChar x = is_space x"

datatype regex =
    Eps
  | One cls
  | Many cls
  | Bol
  | Eol
  | Seq regex regex
  | Alt regex regex
  | Group nat regex

text \<open>
  A matcher state is the text before the current position (reversed, so that its head is the
  previous character), the text from the position on, and the groups captured so far (the
  latest capture of a group first).
\<close>

type_synonym groups = "(nat \<times> string) list"
type_synonym mstate = "string \<times> string \<times> groups"

fun rep :: "(char \<Rightarrow> bool) \<Rightarrow> (mstate \<Rightarrow> 'r option) \<Rightarrow> string \<Rightarrow> string \<Rightarrow> groups \<Rightarrow> 'r option" where
  "rep p k pre [] g = k (pre, [], g)"
| "rep p k pre (c # cs) g =
     (if p c
      then (case rep p k (c # pre) cs g of
              Some r \<Rightarrow> Some r
            | None \<Rightarrow> k (pre, c # cs, g))
      else k (pre, c # cs, g))"

primrec rmatch :: "regex \<Rightarrow> (mstate \<Rightarrow> 'r option) \<Rightarrow> mstate \<Rightarrow> 'r option" where
  "rmatch Eps k = k"
| "rmatch (One c) k =
     (\<lambda>(pre, rem, g). case rem of [] \<Rightarrow> None
        | x # xs \<Rightarrow> if in_cls c x then k (x # pre, xs, g) else None)"
| "rmatch (Many c) k = (\<lambda>(pre, rem, g). rep (in_cls c) k pre rem g)"
| "rmatch Bol k =
     (\<lambda>(pre, rem, g). case pre of [] \<Rightarrow> k (pre, rem, g)
        | x # _ \<Rightarrow> if x = NL then k (pre, rem, g) else None)"
| "rmatch Eol k =
     (\<lambda>(pre, rem, g). case rem of [] \<Rightarrow> k (pre, rem, g)
        | x # _ \<Rightarrow> if x = NL then k (pre, rem, g) else None)"
| "rmatch (Seq a b) k = rmatch a (rmatch b k)"
| "rmatch (Alt a b) k =
     (\<lambda>s. case rmatch a k s of Some r \<Rightarrow> Some r | None \<Rightarrow> rmatch b k s)"
| "rmatch (Group n r) k =
     (\<lambda>(pre, rem, g).
        rmatch r (\<lambda>(pre', rem', g').
                    k (pre', rem', (n, rev (take (length pre' - length pre) pre')) # g'))
          (pre, rem, g))"

definition match_here :: "regex \<Rightarrow> string \<Rightarrow> string \<Rightarrow> mstate option" where
  "match_here r pre rem = rmatch r Some (pre, rem, [])"

text \<open>\<^verbatim>\<open>pattern.search(text)\<close>: the match at the leftmost position that has one.\<close>

fun search_from :: "regex \<Rightarrow> string \<Rightarrow> string \<Rightarrow> groups option" where
  "search_from r pre [] = map_option (\<lambda>(_, _, g). g) (match_here r pre [])"
| "search_from r pre (c # cs) =
     (case match_here r pre (c # cs) of
        Some (_, _, g) \<Rightarrow> Some g
      | None \<Rightarrow> search_from r (c # pre) cs)"

definition re_search :: "regex \<Rightarrow> string \<Rightarrow> groups option" where
  "re_search r s = search_from r [] s"

text \<open>
  \<^verbatim>\<open>pattern.finditer(text)\<close>: the matches from left to right, each search starting where the
  last match ended. After a match of no character the scan moves on by one character; every
  pattern of the program holds a literal character, so none of them has such a match.
\<close>

fun finditer_from :: "regex \<Rightarrow> string \<Rightarrow> string \<Rightarrow> groups list" where
  "finditer_from r pre [] =
     (case match_here r pre [] of Some (_, _, g) \<Rightarrow> [g] | None \<Rightarrow> [])"
| "finditer_from r pre (c # cs) =
     (case match_here r pre (c # cs) of
        Some (pre', rem', g) \<Rightarrow>
          g # (if length rem' < length (c # cs) then finditer_from r pre' rem'
               else finditer_from r (c # pre) cs)
      | None \<Rightarrow> finditer_from r (c # pre) cs)"

definition re_finditer :: "regex \<Rightarrow> string \<Rightarrow> groups list" where
  "re_finditer r s = finditer_from r [] s"

text \<open>
  \<^verbatim>\<open>match.groups()[n - 1]\<close>. A group that took no part in the match reads as the empty
  string here, as \<^verbatim>\<open>findall\<close> reports it; in the patterns read through
  \<^verbatim>\<open>groups()\<close> every group takes part in every match.
\<close>

definition grp :: "groups \<Rightarrow> nat \<Rightarrow> string" where
  "grp g n = (case map_of g n of Some s \<Rightarrow> s | None \<Rightarrow> [])"

definition re_findall :: "regex \<Rightarrow> nat \<Rightarrow> string \<Rightarrow> string list list" where
  "re_findall r n s = map (\<lambda>g. map (grp g) [1..<Suc n]) (re_finditer r s)"

definition lit :: "string \<Rightarrow> regex" where
  "lit s = foldr (\<lambda>c r. Seq (One (Chr c)) r) s Eps"

definition seqs :: "regex list \<Rightarrow> regex" where
  "seqs rs = foldr Seq rs Eps"

subsection \<open>The patterns of the module\<close>

definition BIB_PATTERN :: regex where
  \<comment> \<open>\<^verbatim>\<open>\\bibdata\{(.*)\}\<close>\<close>
  "BIB_PATTERN = seqs [lit (BSL # ''bibdata{''), Group 1 (Many AnyChar), lit ''}'']"

definition CITE_PATTERN :: regex where
  \<comment> \<open>\<^verbatim>\<open>\\citation\{(.*)\}\<close>\<close>
  "CITE_PATTERN = seqs [lit (BSL # ''citation{''), Group 1 (Many AnyChar), lit ''}'']"

definition BIBCITE_PATTERN :: regex where
  \<comment> \<open>\<^verbatim>\<open>\\bibcite\{(.*)\}\{(.*)\}\<close>\<close>
  "BIBCITE_PATTERN = seqs [lit (BSL # ''bibcite{''), Group 1 (Many AnyChar), lit ''}{'',
                           Group 2 (Many AnyChar), lit ''}'']"

definition BIBENTRY_PATTERN :: regex where
  \<comment> \<open>\<^verbatim>\<open>@.*\{(.*),\s\<close>\<close>
  "BIBENTRY_PATTERN = seqs [lit ''@'', Many AnyChar, lit ''{'', Group 1 (Many AnyChar),
                            lit '','', One SpaceChar]"

definition ERROR_PATTTERN :: regex where
  \<comment> \<open>\<^verbatim>\<open>(?:^! (.*\nl\..*)$)|(?:^! (.*)$)|(No pages of output.)\<close> with \<^verbatim>\<open>re.M\<close>\<close>
  "ERROR_PATTTERN =
     Alt (seqs [Bol, lit ''! '',
                Group 1 (seqs [Many AnyChar, lit (NL # ''l.''), Many AnyChar]), Eol])
    (Alt (seqs [Bol, lit ''! '', Group 2 (Many AnyChar), Eol])
         (Group 3 (seqs [lit ''No pages of output'', One AnyChar])))"

definition LATEX_RERUN_PATTERNS :: "regex list" where
  "LATEX_RERUN_PATTERNS =
     [seqs [lit ''LaTeX Warning: Reference '', Many AnyChar, lit '' undefined''],
      lit ''LaTeX Warning: There were undefined references.'',
      lit ''LaTeX Warning: Label(s) may have changed.'',
      seqs [lit ''No file '', Many AnyChar, Group 1 (Alt (lit ''.toc'') (lit ''.lof'')),
            lit ''.'']]"

definition TEXLIPSE_MAIN_PATTERN :: regex where
  \<comment> \<open>\<^verbatim>\<open>^mainTexFile=(.*)(?:\.tex)$\<close> with \<^verbatim>\<open>re.M\<close>\<close>
  "TEXLIPSE_MAIN_PATTERN =
     seqs [Bol, lit ''mainTexFile='', Group 1 (Many AnyChar), lit ''.tex'', Eol]"

definition NEWGLOSSARY_PATTERN :: regex where
  \<comment> \<open>\<^verbatim>\<open>\\@newglossary\{(.*)\}\{.*\}\{(.*)\}\{(.*)\}\<close> (in \<^verbatim>\<open>read_glossaries\<close>)\<close>
  "NEWGLOSSARY_PATTERN =
     seqs [lit (BSL # ''@newglossary{''), Group 1 (Many AnyChar), lit ''}{'', Many AnyChar,
           lit ''}{'', Group 2 (Many AnyChar), lit ''}{'', Group 3 (Many AnyChar), lit ''}'']"

definition INPUT_PATTERN :: regex where
  \<comment> \<open>\<^verbatim>\<open>\\@input\{(.*\.aux)\}\<close> (in \<^verbatim>\<open>generate_citation_counter\<close>)\<close>
  "INPUT_PATTERN =
     seqs [lit (BSL # ''@input{''), Group 1 (seqs [Many AnyChar, lit ''.aux'']), lit ''}'']"

definition CITATION_UNDEFINED_PATTERN :: regex where
  \<comment> \<open>\<^verbatim>\<open>LaTeX Warning: Citation .* undefined\<close> (in \<^verbatim>\<open>_need_bib_run\<close>)\<close>
  "CITATION_UNDEFINED_PATTERN =
     seqs [lit ''LaTeX Warning: Citation '', Many AnyChar, lit '' undefined'']"

definition LATEX_FLAGS :: "string list" where
  "LATEX_FLAGS = [''-interaction=nonstopmode'', ''-shell-escape'', ''--synctex=1'']"

definition MAX_RUNS :: nat where
  "MAX_RUNS = 4"

definition NO_LATEX_ERROR :: "string \<Rightarrow> string" where
  "NO_LATEX_ERROR cmd =
     ''Could not run command '' @ [DQ] @ cmd @ [DQ] @
     ''. Is your latex distribution under your PATH?''"

section \<open>The world the program runs in\<close>

text \<open>
  The working directory is a list of named entries in the order \<^verbatim>\<open>os.listdir\<close> reports
  them; an entry is a regular file, with its bytes and modification time, or a directory.
  The clock is the time a file written now is stamped with.
\<close>

datatype node = File string nat | Dir

record world =
  nodes :: "(string \<times> node) list"
  clock :: nat

text \<open>
  Python 3 raises \<^verbatim>\<open>OSError\<close> for every failed file or process operation;
  \<^verbatim>\<open>IOError\<close> is another name of the same class there. Reading a file in text mode
  raises \<^verbatim>\<open>UnicodeDecodeError\<close>, which is a \<^verbatim>\<open>ValueError\<close> and no \<^verbatim>\<open>OSError\<close>, when
  its bytes are no text in the encoding of the platform; the error carries the bytes.
\<close>

datatype error =
    LatexMkError string
  | OSError string
  | UnicodeDecodeError string
  | NameError string
  | ReError string
  | AttributeError string
  | SystemExit nat

datatype level = Debug | Info | Warning | Error

datatype event =
    Log level string
  | Exec "string list"
  | Notification string "string option"
  | Stderr string

definition isfile :: "string \<Rightarrow> world \<Rightarrow> bool" where
  "isfile p w = (case map_of (nodes w) p of Some (File _ _) \<Rightarrow> True | _ \<Rightarrow> False)"

definition listdir :: "world \<Rightarrow> string list" where
  "listdir w = map fst (nodes w)"

definition os_remove :: "string \<Rightarrow> world \<Rightarrow> error + world" where
  \<comment> \<open>removes a regular file; a directory or a missing name is an \<^verbatim>\<open>OSError\<close>\<close>
  "os_remove p w =
     (case map_of (nodes w) p of
        Some (File _ _) \<Rightarrow> Inr (w\<lparr>nodes := AList.delete p (nodes w)\<rparr>)
      | _ \<Rightarrow> Inl (OSError p))"

definition shutil_copy :: "string \<Rightarrow> string \<Rightarrow> world \<Rightarrow> error + world" where
  \<comment> \<open>\<^verbatim>\<open>shutil.copy(src, dst)\<close>: the content, stamped with the current time; a copy
      onto a directory lands inside it, where this model does not look\<close>
  "shutil_copy src dst w =
     (case map_of (nodes w) src of
        Some (File content _) \<Rightarrow>
          (case map_of (nodes w) dst of
             Some Dir \<Rightarrow> Inr w
           | _ \<Rightarrow> Inr (w\<lparr>nodes := AList.update dst (File content (clock w)) (nodes w)\<rparr>))
      | _ \<Rightarrow> Inl (OSError src))"

definition filecmp_cmp :: "string \<Rightarrow> string \<Rightarrow> world \<Rightarrow> error + bool" where
  \<comment> \<open>\<^verbatim>\<open>filecmp.cmp(f1, f2)\<close> with its default \<^verbatim>\<open>shallow=True\<close>: two regular files
      with the same size and modification time are taken as equal unread; files of different
      sizes are unequal; otherwise the contents are compared\<close>
  "filecmp_cmp f1 f2 w =
     (case (map_of (nodes w) f1, map_of (nodes w) f2) of
        (Some n1, Some n2) \<Rightarrow>
          (case (n1, n2) of
             (File c1 t1, File c2 t2) \<Rightarrow>
               if (length c1, t1) = (length c2, t2) then Inr True
               else if length c1 \<noteq> length c2 then Inr False
               else Inr (c1 = c2)
           | _ \<Rightarrow> Inr False)
      | (None, _) \<Rightarrow> Inl (OSError f1)
      | (_, None) \<Rightarrow> Inl (OSError f2))"

text \<open>
  What the program does not own is a parameter: the processes it starts, the parser of
  \<^verbatim>\<open>re\<close> for the patterns it builds at run time from file names, what happens to the
  files while it sleeps, the platform and its text encoding, the layout in which
  \<^verbatim>\<open>argparse\<close> prints the parsed arguments, and whether the notification module is loaded.
\<close>

record options =
  opt_clean :: bool
  opt_pdf :: bool
  opt_command :: "string option"
  opt_exit_on_error :: bool
  opt_check_cite :: bool
  opt_preview :: bool
  opt_notify :: bool

record env =
  popen :: "string list \<Rightarrow> world \<Rightarrow> string + world"
    \<comment> \<open>\<^verbatim>\<open>Popen(cmd).wait()\<close> and \<^verbatim>\<open>call(cmd)\<close>: the world the process leaves, or the text
        of the \<^verbatim>\<open>OSError\<close> raised on starting it\<close>
  re_compile :: "string \<Rightarrow> regex option"
    \<comment> \<open>the pattern a string compiles to; \<^verbatim>\<open>None\<close> where \<^verbatim>\<open>re\<close> raises \<^verbatim>\<open>re.error\<close>\<close>
  sleep :: "world \<Rightarrow> world"
  platform :: string
  decode :: "string \<Rightarrow> string option"
    \<comment> \<open>the text that bytes stand for in the encoding \<^verbatim>\<open>open\<close> takes from the locale;
        \<^verbatim>\<open>None\<close> where the codec raises \<^verbatim>\<open>UnicodeDecodeError\<close>\<close>
  str_args :: "string \<Rightarrow> options \<Rightarrow> string"
    \<comment> \<open>\<^verbatim>\<open>str(args)\<close> for the file name and the options parsed\<close>
  startfile :: "string \<Rightarrow> world \<Rightarrow> string + world"
  notify2_loaded :: bool

text \<open>
  \<^verbatim>\<open>open(p).read()\<close>: the file is opened in text mode with the defaults, so its bytes are
  decoded in the encoding of the platform and every line ending (\<^verbatim>\<open>\r\n\<close> or \<^verbatim>\<open>\r\<close> alone)
  is read as the newline character.
\<close>

fun universal_newlines :: "string \<Rightarrow> string" where
  "universal_newlines [] = []"
| "universal_newlines [c] = (if c = CR then [NL] else [c])"
| "universal_newlines (c # d # cs) =
     (if c = CR then (if d = NL then NL # universal_newlines cs
                      else NL # universal_newlines (d # cs))
      else c # universal_newlines (d # cs))"

definition read_file :: "env \<Rightarrow> string \<Rightarrow> world \<Rightarrow> error + string" where
  \<comment> \<open>\<^verbatim>\<open>with open(p) as fobj: fobj.read()\<close>\<close>
  "read_file e p w =
     (case map_of (nodes w) p of
        Some (File bytes _) \<Rightarrow>
          (case decode e bytes of
             Some text \<Rightarrow> Inr (universal_newlines text)
           | None \<Rightarrow> Inl (UnicodeDecodeError bytes))
      | _ \<Rightarrow> Inl (OSError p))"

text \<open>
  A process is its world and the trace of what it logged and ran; the trace holds every call
  of the logger, whatever level the handlers are set to show. A \<^verbatim>\<open>LatexMaker\<close> is
  the attributes \<^verbatim>\<open>__init__\<close> and \<^verbatim>\<open>run\<close> set, carried together with the process its
  methods act on. The glossary registry is a Python dict: an association list in insertion
  order, with one entry for each key.
\<close>

record proc =
  world :: world
  trace :: "event list"

record LatexMaker = proc +
  opt :: options
  project_name :: string
  latex_cmd :: string
  out :: string
  glossaries :: "(string \<times> string \<times> string) list"
  latex_run_counter :: nat
  bib_file :: string
  old_dir :: "string list"

subsection \<open>Raising, returning and sequencing\<close>

definition ret :: "'a \<Rightarrow> 's \<Rightarrow> (error + 'a) \<times> 's" where
  "ret x s = (Inr x, s)"

definition raise :: "error \<Rightarrow> 's \<Rightarrow> (error + 'a) \<times> 's" where
  "raise e s = (Inl e, s)"

definition bind :: "('s \<Rightarrow> (error + 'a) \<times> 's) \<Rightarrow> ('a \<Rightarrow> 's \<Rightarrow> (error + 'b) \<times> 's)
                    \<Rightarrow> 's \<Rightarrow> (error + 'b) \<times> 's" where
  "bind m f s = (case m s of (Inl e, s') \<Rightarrow> (Inl e, s') | (Inr x, s') \<Rightarrow> f x s')"

definition lift :: "('s \<Rightarrow> error + 'a) \<Rightarrow> 's \<Rightarrow> (error + 'a) \<times> 's" where
  \<comment> \<open>an operation that reads the state and may raise\<close>
  "lift f s = (f s, s)"

definition log_msg :: "level \<Rightarrow> string \<Rightarrow> 'a proc_scheme \<Rightarrow> 'a proc_scheme" where
  "log_msg lvl msg s = s\<lparr>trace := trace s @ [Log lvl msg]\<rparr>"

definition Popen :: "env \<Rightarrow> string list \<Rightarrow> 'a proc_scheme \<Rightarrow> string + 'a proc_scheme" where
  "Popen e cmd s =
     (case popen e cmd (world s) of
        Inl msg \<Rightarrow> Inl msg
      | Inr w \<Rightarrow> Inr (s\<lparr>world := w, trace := trace s @ [Exec cmd]\<rparr>))"

definition re_search_str :: "env \<Rightarrow> string \<Rightarrow> string \<Rightarrow> error + bool" where
  \<comment> \<open>\<^verbatim>\<open>re.search(pattern_string, text)\<close>, read as a truth value\<close>
  "re_search_str e pat text =
     (case re_compile e pat of
        None \<Rightarrow> Inl (ReError pat)
      | Some r \<Rightarrow> Inr (re_search r text \<noteq> None))"

definition endswith :: "string \<Rightarrow> string \<Rightarrow> bool" where
  "endswith s suf = (length suf \<le> length s \<and> drop (length s - length suf) s = suf)"

definition strip :: "string \<Rightarrow> string" where
  "strip s = dropWhile is_space (rev (dropWhile is_space (rev s)))"

fun join :: "string \<Rightarrow> string list \<Rightarrow> string" where
  "join sep [] = []"
| "join sep [x] = x"
| "join sep (x # y # ys) = x @ sep @ join sep (y # ys)"

section \<open>The methods of \<^verbatim>\<open>LatexMaker\<close>\<close>

definition fatal_error :: "string \<Rightarrow> 'a proc_scheme \<Rightarrow> (error + 'b) \<times> 'a proc_scheme" where
  \<comment> \<open>\<^verbatim>\<open>_fatal_error\<close>: log the message as an error and raise \<^verbatim>\<open>LatexMkError\<close>\<close>
  "fatal_error msg s = raise (LatexMkError msg) (log_msg Error msg s)"

definition parse_texlipse_config :: "env \<Rightarrow> proc \<Rightarrow> (error + string) \<times> proc" where
  "parse_texlipse_config e s0 =
     (let s = (if \<not> isfile ''.texlipse'' (world s0)
               then s0\<lparr>world := sleep e (world s0)\<rparr> else s0)
      in if \<not> isfile ''.texlipse'' (world s)
         then fatal_error ''! Fatal error: File .texlipse is missing.'' s
         else (case read_file e ''.texlipse'' (world s) of
                 Inl err \<Rightarrow> raise err s
               | Inr content \<Rightarrow>
                   (case re_search TEXLIPSE_MAIN_PATTERN content of
                      Some m \<Rightarrow>
                        ret (grp m 1)
                          (log_msg Info (''Found inputfile in '' @ [DQ] @ ''.texlipse'' @ [DQ]
                                         @ '': '' @ grp m 1 @ ''.tex'') s)
                    | None \<Rightarrow> fatal_error ''! Fatal error: Parsing .texlipse failed.'' s)))"

definition LatexMaker_init :: "env \<Rightarrow> string \<Rightarrow> options \<Rightarrow> proc \<Rightarrow> (error + LatexMaker) \<times> proc" where
  \<comment> \<open>\<^verbatim>\<open>LatexMaker.__init__\<close>\<close>
  "LatexMaker_init e name opts s0 =
     (case (if name = ''.texlipse'' then parse_texlipse_config e s0 else ret name s0) of
        (Inl err, s) \<Rightarrow> (Inl err, s)
      | (Inr pn, s) \<Rightarrow>
          (Inr \<lparr>world = world s, trace = trace s,
                opt = opts,
                project_name = (if endswith pn ''.tex'' then take (length pn - 4) pn else pn),
                latex_cmd = (case opt_command opts of
                               Some c \<Rightarrow> if c \<noteq> [] then c
                                         else if opt_pdf opts then ''pdflatex'' else ''latex''
                             | None \<Rightarrow> if opt_pdf opts then ''pdflatex'' else ''latex''),
                out = [],
                glossaries = [],
                latex_run_counter = 0,
                bib_file = [],
                old_dir = []\<rparr>, s))"

text \<open>
  Python dicts are association lists in insertion order with one entry for each key. A
  \<^verbatim>\<open>defaultdict(int)\<close> reads 0 off its keys, and \<^verbatim>\<open>counter[name] += 1\<close> stores the
  count read plus one. Two dicts are equal when they have as many keys and every key of the
  first has an equal value in the second, whatever the order.
\<close>

type_synonym counter = "(string \<times> nat) list"

definition count_of :: "counter \<Rightarrow> string \<Rightarrow> nat" where
  "count_of counter name = (case map_of counter name of Some n \<Rightarrow> n | None \<Rightarrow> 0)"

definition dict_eq :: "('v \<Rightarrow> 'v \<Rightarrow> bool) \<Rightarrow> ('k \<times> 'v) list \<Rightarrow> ('k \<times> 'v) list \<Rightarrow> bool" where
  "dict_eq veq d1 d2 =
     (length d1 = length d2 \<and>
      list_all (\<lambda>(k, v). case map_of d2 k of Some v' \<Rightarrow> veq v v' | None \<Rightarrow> False) d1)"

definition count_citations :: "env \<Rightarrow> string \<Rightarrow> world \<Rightarrow> error + counter" where
  \<comment> \<open>\<^verbatim>\<open>_count_citations\<close>\<close>
  "count_citations e aux_file w =
     (case read_file e aux_file w of
        Inl err \<Rightarrow> Inl err
      | Inr content \<Rightarrow>
          Inr (foldl (\<lambda>counter m. AList.update (grp m 1) (count_of counter (grp m 1) + 1) counter)
                 [] (re_finditer CITE_PATTERN content)))"

fun input_counters :: "env \<Rightarrow> world \<Rightarrow> string list \<Rightarrow> (string \<times> counter) list
                         \<Rightarrow> error + (string \<times> counter) list" where
  \<comment> \<open>the loop of \<^verbatim>\<open>generate_citation_counter\<close>; \<^verbatim>\<open>except IOError: pass\<close> takes the
      \<^verbatim>\<open>OSError\<close> of a file that cannot be opened and lets every other error through\<close>
  "input_counters e w [] cite_counter = Inr cite_counter"
| "input_counters e w (filename # rest) cite_counter =
     (case count_citations e filename w of
        Inl (OSError _) \<Rightarrow> input_counters e w rest cite_counter
      | Inl err \<Rightarrow> Inl err
      | Inr counter \<Rightarrow> input_counters e w rest (AList.update filename counter cite_counter))"

definition generate_citation_counter ::
    "env \<Rightarrow> 'a LatexMaker_scheme \<Rightarrow> error + (string \<times> counter) list" where
  "generate_citation_counter e s =
     (let filename = project_name s @ ''.aux'' in
      case read_file e filename (world s) of
        Inl err \<Rightarrow> Inl err
      | Inr main_aux \<Rightarrow>
          (case count_citations e filename (world s) of
             Inl err \<Rightarrow> Inl err
           | Inr counter \<Rightarrow>
               input_counters e (world s)
                 (map (\<lambda>m. grp m 1) (re_finditer INPUT_PATTERN main_aux))
                 [(filename, counter)]))"

definition read_glossaries :: "env \<Rightarrow> LatexMaker \<Rightarrow> (error + unit) \<times> LatexMaker" where
  "read_glossaries e s =
     (case read_file e (project_name s @ ''.aux'') (world s) of
        Inl err \<Rightarrow> raise err s
      | Inr main_aux \<Rightarrow>
          ret () (s\<lparr>glossaries :=
                      foldl (\<lambda>gl m. AList.update (grp m 1) (grp m 2, grp m 3) gl)
                        (glossaries s) (re_finditer NEWGLOSSARY_PATTERN main_aux)\<rparr>))"

fun read_gloss_files :: "env \<Rightarrow> string \<Rightarrow> world \<Rightarrow> (string \<times> string \<times> string) list
                           \<Rightarrow> (string \<rightharpoonup> string) \<Rightarrow> error + (string \<rightharpoonup> string)" where
  \<comment> \<open>the loop at the end of \<^verbatim>\<open>_read_latex_files\<close>: the content of every glossary
      output file that exists\<close>
  "read_gloss_files e pn w [] gloss_files = Inr gloss_files"
| "read_gloss_files e pn w ((gloss, ext_i, ext) # rest) gloss_files =
     (let filename = pn @ ''.'' @ ext in
      if isfile filename w
      then (case read_file e filename w of
              Inl err \<Rightarrow> Inl err
            | Inr content \<Rightarrow> read_gloss_files e pn w rest (gloss_files(gloss \<mapsto> content)))
      else read_gloss_files e pn w rest gloss_files)"

definition read_latex_files ::
    "env \<Rightarrow> LatexMaker
       \<Rightarrow> (error + (string \<times> counter) list \<times> string \<times> (string \<rightharpoonup> string)) \<times> LatexMaker" where
  \<comment> \<open>\<^verbatim>\<open>_read_latex_files\<close>. The module binds \<^verbatim>\<open>sha256\<close> alone
      (\<^verbatim>\<open>from hashlib import sha256\<close>), so \<^verbatim>\<open>hashlib.sha265(...)\<close> raises
      \<^verbatim>\<open>NameError\<close> when it is reached\<close>
  "read_latex_files e =
     bind (\<lambda>s. if isfile (project_name s @ ''.aux'') (world s)
                then bind (lift (generate_citation_counter e))
                       (\<lambda>cite_counter. bind (read_glossaries e) (\<lambda>_. ret cite_counter)) s
                else ret [(project_name s @ ''.aux'', [])] s)
       (\<lambda>cite_counter.
     bind (\<lambda>s. if isfile (project_name s @ ''.toc'') (world s)
                then raise (NameError ''hashlib'') s
                else ret [] s)
       (\<lambda>toc_sha.
     bind (lift (\<lambda>s. read_gloss_files e (project_name s) (world s) (glossaries s) Map.empty))
       (\<lambda>gloss_files. ret (cite_counter, toc_sha, gloss_files))))"

definition is_toc_changed :: "string \<Rightarrow> LatexMaker \<Rightarrow> (error + bool) \<times> LatexMaker" where
  \<comment> \<open>\<^verbatim>\<open>_is_toc_changed\<close>: \<^verbatim>\<open>hashlib\<close> is not bound here either; falling off the end
      returns \<^verbatim>\<open>None\<close>, which the caller reads as false\<close>
  "is_toc_changed toc_sha s =
     (if isfile (project_name s @ ''.toc'') (world s)
      then raise (NameError ''hashlib'') s
      else ret False s)"

definition check_errors :: "LatexMaker \<Rightarrow> (error + unit) \<times> LatexMaker" where
  "check_errors s =
     (let errors = re_findall ERROR_PATTTERN 3 (out s) in
      if errors \<noteq> [] then
        (let s1 = log_msg Error ''! Errors occurred:'' s;
             err = join [NL] (map (\<lambda>x. strip (filter (\<lambda>c. c \<noteq> CHR 0x0D) x))
                                (filter (\<lambda>x. strip x \<noteq> []) (concat errors)));
             s2 = log_msg Error err s1;
             s3 = log_msg Error (''! See '' @ [DQ] @ project_name s @ ''.log'' @ [DQ]
                                 @ '' for details.'') s2
         in if opt_exit_on_error (opt s)
            then raise (LatexMkError (join [NL] [err, ''See '' @ [DQ] @ project_name s
                                                 @ ''.log'' @ [DQ] @ '' for details.''])) s3
            else ret () s3)
      else ret () s)"

definition latex_cmdline :: "LatexMaker \<Rightarrow> string list" where
  "latex_cmdline s =
     [latex_cmd s] @ LATEX_FLAGS @ [''-jobname'', project_name s, project_name s @ ''.tex'']"

definition latex_run :: "env \<Rightarrow> LatexMaker \<Rightarrow> (error + unit) \<times> LatexMaker" where
  "latex_run e s =
     (let s1 = log_msg Info (''Running '' @ latex_cmd s @ ''...'') s in
      case Popen e (latex_cmdline s1) s1 of
        Inl _ \<Rightarrow> fatal_error (NO_LATEX_ERROR (latex_cmd s1)) s1
      | Inr s2 \<Rightarrow>
          (let s3 = s2\<lparr>latex_run_counter := latex_run_counter s2 + 1\<rparr> in
           case read_file e (project_name s3 @ ''.log'') (world s3) of
             Inl err \<Rightarrow> raise err s3
           | Inr content \<Rightarrow> check_errors (s3\<lparr>out := content\<rparr>)))"

definition need_bib_run ::
    "env \<Rightarrow> (string \<times> counter) list \<Rightarrow> LatexMaker \<Rightarrow> (error + bool) \<times> LatexMaker" where
  \<comment> \<open>\<^verbatim>\<open>_need_bib_run\<close>; falling off the end returns \<^verbatim>\<open>None\<close>, read as false\<close>
  "need_bib_run e old_cite_counter s0 =
     (case read_file e (project_name s0 @ ''.aux'') (world s0) of
        Inl err \<Rightarrow> raise err s0
      | Inr content \<Rightarrow>
          (case re_search BIB_PATTERN content of
             None \<Rightarrow> ret False s0
           | Some m \<Rightarrow>
               (let s = s0\<lparr>bib_file := grp m 1\<rparr> in
                if \<not> isfile (bib_file s @ ''.bib'') (world s)
                then ret False (log_msg Warning ''Could not find *.bib file.'' s)
                else
                  (case re_search_str e (''No file '' @ project_name s @ ''.bbl.'') (out s) of
                     Inl err \<Rightarrow> raise err s
                   | Inr no_bbl \<Rightarrow>
                       if no_bbl \<or> re_search CITATION_UNDEFINED_PATTERN (out s) \<noteq> None
                       then ret True s
                       else
                         (case generate_citation_counter e s of
                            Inl err \<Rightarrow> raise err s
                          | Inr cite_counter \<Rightarrow>
                              if \<not> dict_eq (dict_eq (=)) old_cite_counter cite_counter
                              then ret True s
                              else if isfile (bib_file s @ ''.bib.old'') (world s)
                              then (case filecmp_cmp (bib_file s @ ''.bib'')
                                           (bib_file s @ ''.bib.old'') (world s) of
                                      Inl err \<Rightarrow> raise err s
                                    | Inr same \<Rightarrow> if \<not> same then ret True s else ret False s)
                              else ret False s)))))"

definition bibtex_run :: "env \<Rightarrow> LatexMaker \<Rightarrow> (error + unit) \<times> LatexMaker" where
  "bibtex_run e s =
     (let s1 = log_msg Info ''Running bibtex...'' s in
      case Popen e [''bibtex'', project_name s1] s1 of
        Inl _ \<Rightarrow> fatal_error (NO_LATEX_ERROR ''bibtex'') s1
      | Inr s2 \<Rightarrow>
          (case shutil_copy (bib_file s2 @ ''.bib'') (bib_file s2 @ ''.bib.old'') (world s2) of
             Inl err \<Rightarrow> raise err s2
           | Inr w \<Rightarrow> ret () (s2\<lparr>world := w\<rparr>)))"

definition makeindex_cmdline :: "LatexMaker \<Rightarrow> string \<Rightarrow> string \<Rightarrow> string list" where
  "makeindex_cmdline s fname_in fname_out =
     [''makeindex'', ''-q'', ''-s'', project_name s @ ''.ist'', ''-o'', fname_in, fname_out]"

definition make_gloss :: "env \<Rightarrow> (string \<rightharpoonup> string) \<Rightarrow> string \<Rightarrow> string \<Rightarrow> string \<Rightarrow> LatexMaker
                          \<Rightarrow> error + bool" where
  \<comment> \<open>the loop body of \<^verbatim>\<open>makeindex_runs\<close> down to \<^verbatim>\<open>if make_gloss:\<close>, for one glossary:
      the value of \<^verbatim>\<open>make_gloss\<close> there. In \<^verbatim>\<open>gloss_files[gloss] != fobj.read()\<close> the
      snapshot is looked up first, so a missing key is the \<^verbatim>\<open>KeyError\<close> branch with the
      file not read\<close>
  "make_gloss e gloss_files gloss fname_in fname_out s =
     (case re_search_str e (''No file '' @ fname_in @ ''.'') (out s) of
        Inl err \<Rightarrow> Inl err
      | Inr no_file \<Rightarrow>
          (let make_gloss0 = (if no_file then True else False) in
           if \<not> isfile fname_out (world s) then Inr True
           else (case gloss_files gloss of
                   None \<Rightarrow> Inr True
                 | Some old \<Rightarrow>
                     (case read_file e fname_out (world s) of
                        Inl err \<Rightarrow> Inl err
                      | Inr content \<Rightarrow> Inr (if old \<noteq> content then True else make_gloss0)))))"

fun makeindex_loop :: "env \<Rightarrow> (string \<rightharpoonup> string) \<Rightarrow> (string \<times> string \<times> string) list \<Rightarrow> bool
                         \<Rightarrow> LatexMaker \<Rightarrow> (error + bool) \<times> LatexMaker" where
  "makeindex_loop e gloss_files [] gloss_changed s = ret gloss_changed s"
| "makeindex_loop e gloss_files ((gloss, ext_i, ext_o) # rest) gloss_changed s =
     (let fname_in = project_name s @ ''.'' @ ext_i;
          fname_out = project_name s @ ''.'' @ ext_o
      in case make_gloss e gloss_files gloss fname_in fname_out s of
           Inl err \<Rightarrow> raise err s
         | Inr True \<Rightarrow>
             (let s1 = log_msg Info (''Running makeindex ('' @ gloss @ '')...'') s in
              case Popen e (makeindex_cmdline s1 fname_in fname_out) s1 of
                Inl _ \<Rightarrow> fatal_error (NO_LATEX_ERROR ''makeindex'') s1
              | Inr s2 \<Rightarrow> makeindex_loop e gloss_files rest True s2)
         | Inr False \<Rightarrow> makeindex_loop e gloss_files rest gloss_changed s)"

definition makeindex_runs :: "env \<Rightarrow> (string \<rightharpoonup> string) \<Rightarrow> LatexMaker \<Rightarrow> (error + bool) \<times> LatexMaker" where
  "makeindex_runs e gloss_files s = makeindex_loop e gloss_files (glossaries s) False s"

definition open_preview :: "env \<Rightarrow> LatexMaker \<Rightarrow> (error + unit) \<times> LatexMaker" where
  "open_preview e s =
     (let s1 = log_msg Info ''Opening preview...'' s;
          ext = (if opt_pdf (opt s1) then ''pdf'' else ''dvi'');
          filename = project_name s1 @ ''.'' @ ext
      in if platform e = ''win32''
         then (case startfile e filename (world s1) of
                 Inl _ \<Rightarrow>
                   ret () (log_msg Error (''Preview-Error: Extension .'' @ ext
                             @ '' is not linked to a specific application!'') s1)
               | Inr w \<Rightarrow> ret () (s1\<lparr>world := w\<rparr>))
         else if platform e = ''darwin''
         then (case Popen e [''open'', filename] s1 of
                 Inl msg \<Rightarrow> raise (OSError msg) s1
               | Inr s2 \<Rightarrow> ret () s2)
         else (case Popen e [''xdg-open'', filename] s1 of
                 Inl msg \<Rightarrow>
                   ret () (log_msg Error (''Preview-Error: opening previewer failed with ''
                             @ ''the following message:'' @ [NL] @ msg) s1)
               | Inr s2 \<Rightarrow> ret () s2))"

definition need_latex_rerun :: "LatexMaker \<Rightarrow> bool" where
  "need_latex_rerun s = list_ex (\<lambda>pattern. re_search pattern (out s) \<noteq> None) LATEX_RERUN_PATTERNS"

definition notify :: "env \<Rightarrow> string \<Rightarrow> string option \<Rightarrow> 'a proc_scheme \<Rightarrow> (error + unit) \<times> 'a proc_scheme" where
  \<comment> \<open>the module's \<^verbatim>\<open>notify\<close>; \<^verbatim>\<open>notify2\<close> is \<^verbatim>\<open>None\<close> when its import failed\<close>
  "notify e summary msg s =
     (if notify2_loaded e then ret () (s\<lparr>trace := trace s @ [Notification summary msg]\<rparr>)
      else raise (AttributeError ''Notification'') s)"

section \<open>\<^verbatim>\<open>LatexMaker.run\<close>\<close>

text \<open>
  The rerun loop: \<^verbatim>\<open>while self.latex_run_counter < MAX_RUNS\<close>, leave when no rerun
  pattern matches the log, otherwise run the compiler again. A pass that returns has counted
  itself, which is why the loop ends.
\<close>

lemma check_errors_counter:
  "check_errors s = (r, s') \<Longrightarrow> latex_run_counter s' = latex_run_counter s"
  by (auto simp: check_errors_def Let_def ret_def raise_def log_msg_def split: if_splits)

lemma latex_run_counts:
  assumes "latex_run e s = (Inr x, s')"
  shows "latex_run_counter s' = Suc (latex_run_counter s)"
proof (cases "Popen e (latex_cmdline (log_msg Info (''Running '' @ latex_cmd s @ ''...'') s))
                (log_msg Info (''Running '' @ latex_cmd s @ ''...'') s)")
  case (Inl msg)
  with assms show ?thesis
    by (simp add: latex_run_def Let_def fatal_error_def raise_def)
next
  case (Inr s2)
  then have c2: "latex_run_counter s2 = latex_run_counter s"
    by (auto simp: Popen_def log_msg_def split: sum.splits)
  from assms Inr show ?thesis
    by (auto simp: latex_run_def Let_def raise_def c2 split: sum.splits
             dest!: check_errors_counter)
qed

function rerun_loop :: "env \<Rightarrow> LatexMaker \<Rightarrow> (error + unit) \<times> LatexMaker" where
  "rerun_loop e s =
     (if latex_run_counter s < MAX_RUNS
      then (if \<not> need_latex_rerun s then ret () s
            else (case latex_run e s of
                    (Inl err, s') \<Rightarrow> (Inl err, s')
                  | (Inr _, s') \<Rightarrow> rerun_loop e s'))
      else ret () s)"
  by pat_completeness auto
termination
  by (relation "measure (\<lambda>(e, s). MAX_RUNS - latex_run_counter s)")
     (auto dest!: latex_run_counts [OF sym])

text \<open>
  \<^verbatim>\<open>run\<close> is written as its four blocks in sequence: the build (the snapshot, the compiler
  passes, the index and bibliography passes and the rerun loop), the check for bibliography
  entries that are not cited, the cleanup, and the preview and closing message.
\<close>

definition run_build :: "env \<Rightarrow> LatexMaker \<Rightarrow> (error + unit) \<times> LatexMaker" where
  "run_build e s0 =
     bind (read_latex_files e) (\<lambda>(cite_counter, toc_sha, gloss_files).
     bind (latex_run e) (\<lambda>_.
     bind (read_glossaries e) (\<lambda>_.
     bind (makeindex_runs e gloss_files) (\<lambda>gloss_changed.
     bind (if gloss_changed then ret True else is_toc_changed toc_sha) (\<lambda>changed.
     bind (if changed then latex_run e else ret ()) (\<lambda>_.
     bind (need_bib_run e cite_counter) (\<lambda>needed.
     bind (if needed then bind (bibtex_run e) (\<lambda>_. latex_run e) else ret ()) (\<lambda>_.
     rerun_loop e))))))))
       (s0\<lparr>old_dir := (if opt_clean (opt s0) then listdir (world s0) else [])\<rparr>)"

text \<open>
  The build up to the bibliography decision, for the statements about what the decision is
  taken on; \<^verbatim>\<open>run_build\<close> is these steps followed by the decision and what comes after it.
\<close>

definition run_until_bib :: "env \<Rightarrow> LatexMaker \<Rightarrow> (error + (string \<times> counter) list) \<times> LatexMaker" where
  \<comment> \<open>the statements of \<^verbatim>\<open>run\<close> before \<^verbatim>\<open>if self._need_bib_run(cite_counter):\<close>, giving
      the citation snapshot\<close>
  "run_until_bib e s0 =
     bind (read_latex_files e) (\<lambda>(cite_counter, toc_sha, gloss_files).
     bind (latex_run e) (\<lambda>_.
     bind (read_glossaries e) (\<lambda>_.
     bind (makeindex_runs e gloss_files) (\<lambda>gloss_changed.
     bind (if gloss_changed then ret True else is_toc_changed toc_sha) (\<lambda>changed.
     bind (if changed then latex_run e else ret ()) (\<lambda>_.
     ret cite_counter))))))
       (s0\<lparr>old_dir := (if opt_clean (opt s0) then listdir (world s0) else [])\<rparr>)"

definition run_check_cite :: "env \<Rightarrow> LatexMaker \<Rightarrow> (error + unit) \<times> LatexMaker" where
  "run_check_cite e s =
     (if opt_check_cite (opt s) then
        (case read_file e (project_name s @ ''.aux'') (world s) of
           Inl err \<Rightarrow> raise err s
         | Inr aux_content \<Rightarrow>
             (let cites = map (\<lambda>m. grp m 1) (re_finditer BIBCITE_PATTERN aux_content) in
              case read_file e (bib_file s @ ''.bib'') (world s) of
                Inl err \<Rightarrow> raise err s
              | Inr bib_content \<Rightarrow>
                  ret ()
                    (foldl (\<lambda>s' name.
                              if name \<notin> set cites
                              then log_msg Info (''Bib entry not cited: '' @ [DQ] @ name @ [DQ]) s'
                              else s')
                       s (map (\<lambda>m. grp m 1) (re_finditer BIBENTRY_PATTERN bib_content)))))
      else ret () s)"

fun clean_loop :: "string list \<Rightarrow> string \<Rightarrow> string list \<Rightarrow> world \<Rightarrow> error + world" where
  "clean_loop old ending [] w = Inr w"
| "clean_loop old ending (fname # rest) w =
     (if \<not> (fname \<in> set old \<or> endswith fname ending)
      then (case os_remove fname w of
              Inl (OSError _) \<Rightarrow> clean_loop old ending rest w
            | Inl err \<Rightarrow> Inl err
            | Inr w' \<Rightarrow> clean_loop old ending rest w')
      else clean_loop old ending rest w)"

definition run_clean :: "LatexMaker \<Rightarrow> (error + unit) \<times> LatexMaker" where
  "run_clean s =
     (if opt_clean (opt s) then
        (let ending = (if opt_pdf (opt s) then ''.pdf'' else ''.dvi'') in
         case clean_loop (old_dir s) ending (listdir (world s)) (world s) of
           Inl err \<Rightarrow> raise err s
         | Inr w \<Rightarrow> ret () (s\<lparr>world := w\<rparr>))
      else ret () s)"

definition run_finish :: "env \<Rightarrow> LatexMaker \<Rightarrow> (error + unit) \<times> LatexMaker" where
  "run_finish e =
     bind (\<lambda>s. if opt_preview (opt s) then open_preview e s else ret () s)
       (\<lambda>_ s. let msg = [CHR 0x27] @ project_name s @ ''.tex'' @ [CHR 0x27] @ '' compiled'';
                   s1 = log_msg Info msg s
               in if opt_notify (opt s1) then notify e msg None s1 else ret () s1)"

definition run :: "env \<Rightarrow> LatexMaker \<Rightarrow> (error + unit) \<times> LatexMaker" where
  "run e =
     bind (run_build e) (\<lambda>_. bind (run_check_cite e) (\<lambda>_. bind run_clean (\<lambda>_. run_finish e)))"

section \<open>The entry point\<close>

text \<open>
  \<^verbatim>\<open>main\<close> after \<^verbatim>\<open>parse_known_args\<close>: the file name given (or none), the options and
  the arguments the parser did not recognise. \<^verbatim>\<open>parser.error\<close> writes its message to the
  standard error stream and leaves with status 2, and \<^verbatim>\<open>sys.exit(1)\<close> leaves with status
  1; both are \<^verbatim>\<open>SystemExit\<close>. The name filter \<^verbatim>\<open>*.tex\<close> is \<^verbatim>\<open>fnmatch\<close>'s on a
  case-sensitive file system.
\<close>

definition parser_error :: "string \<Rightarrow> proc \<Rightarrow> (error + 'a) \<times> proc" where
  "parser_error msg s = raise (SystemExit 2) (s\<lparr>trace := trace s @ [Stderr msg]\<rparr>)"

definition resolve_filename :: "string option \<Rightarrow> proc \<Rightarrow> (error + string) \<times> proc" where
  "resolve_filename filename s =
     (case filename of
        Some f \<Rightarrow> ret f s
      | None \<Rightarrow>
          (case filter (\<lambda>n. endswith n ''.tex'') (listdir (world s)) of
             [f] \<Rightarrow> ret f s
           | [] \<Rightarrow> parser_error ''could not find one *.tex file in current directory'' s
           | _ \<Rightarrow> parser_error ''multiple *.tex files in current directory, specify only one'' s))"

definition construct_and_run :: "env \<Rightarrow> string \<Rightarrow> options \<Rightarrow> proc \<Rightarrow> (error + unit) \<times> proc" where
  \<comment> \<open>the body of the \<^verbatim>\<open>try\<close>: \<^verbatim>\<open>LatexMaker(args.filename, args, log=log).run()\<close>\<close>
  "construct_and_run e f opts s =
     (case LatexMaker_init e f opts s of
        (Inl err, s') \<Rightarrow> (Inl err, s')
      | (Inr lm, _) \<Rightarrow> (case run e lm of (r, lm') \<Rightarrow> (r, proc.truncate lm')))"

definition main :: "env \<Rightarrow> string list \<Rightarrow> string option \<Rightarrow> options \<Rightarrow> proc
                    \<Rightarrow> (error + unit) \<times> proc" where
  "main e rest filename opts =
     bind (\<lambda>s. if rest \<noteq> []
                then parser_error (''unrecognized arguments: ''
                       @ join '' '' (map (\<lambda>r. [DQ] @ r @ [DQ]) rest)
                       @ ''. Specify at most one filename'') s
                else ret () s) (\<lambda>_.
     bind (resolve_filename filename) (\<lambda>f.
     bind (\<lambda>s. if opt_notify opts \<and> \<not> notify2_loaded e
                then parser_error (''Unable to use desktop notification ('' @ [CHR 0x27] @ ''-N''
                       @ [CHR 0x27] @ '', '' @ [CHR 0x27] @ ''--notify'' @ [CHR 0x27]
                       @ ''). Could not load package '' @ [CHR 0x27] @ ''notify2'' @ [CHR 0x27]
                       @ ''.'') s
                else ret () s) (\<lambda>_ s0.
       case construct_and_run e f opts (log_msg Debug (''arguments: '' @ str_args e f opts) s0) of
         (Inl (LatexMkError _), s') \<Rightarrow> raise (SystemExit 1) (log_msg Error ''! Exiting...'' s')
       | (r, s') \<Rightarrow> (r, s'))))"

definition exit_status :: "error + unit \<Rightarrow> nat" where
  \<comment> \<open>the status the interpreter leaves with: 0 after a normal return, the code of a
      \<^verbatim>\<open>SystemExit\<close>, 1 after any other exception\<close>
  "exit_status r = (case r of Inr _ \<Rightarrow> 0 | Inl (SystemExit n) \<Rightarrow> n | Inl _ \<Rightarrow> 1)"

section \<open>The words of the claims\<close>

text \<open>
  A citation marker for a key, as the compiler writes it to an auxiliary file, and the number
  of places of a text where the marker for a key stands.
\<close>

definition citation_marker :: "string \<Rightarrow> string" where
  "citation_marker k = BSL # ''citation{'' @ k @ ''}''"

definition marker_count :: "string \<Rightarrow> string \<Rightarrow> nat" where
  "marker_count k text =
     length (filter (\<lambda>i. prefix (citation_marker k) (drop i text)) [0..<length text])"

text \<open>
  The compiler passes of a trace: the executions of the compiler's command line. A step of the
  program stays within \<open>n\<close> passes when it keeps the options, the project name, the compiler
  command and the baseline listing, and raises the counter by the number of passes it adds to
  the trace, at most \<open>n\<close>.
\<close>

definition passes :: "LatexMaker \<Rightarrow> event list \<Rightarrow> nat" where
  "passes s tr = length (filter (\<lambda>ev. ev = Exec (latex_cmdline s)) tr)"

definition within :: "nat \<Rightarrow> LatexMaker \<Rightarrow> LatexMaker \<Rightarrow> bool" where
  "within n s s' \<longleftrightarrow>
     opt s' = opt s \<and> project_name s' = project_name s \<and> latex_cmd s' = latex_cmd s \<and>
     old_dir s' = old_dir s \<and>
     latex_run_counter s \<le> latex_run_counter s' \<and>
     latex_run_counter s' \<le> latex_run_counter s + n \<and>
     passes s (trace s') + latex_run_counter s = passes s (trace s) + latex_run_counter s'"

definition keeps :: "(LatexMaker \<Rightarrow> LatexMaker \<Rightarrow> bool)
                     \<Rightarrow> (LatexMaker \<Rightarrow> (error + 'a) \<times> LatexMaker) \<Rightarrow> bool" where
  "keeps R m \<longleftrightarrow> (\<forall>s r s'. m s = (r, s') \<longrightarrow> R s s')"

text \<open>
  When a glossary is to be rebuilt, in the words of the specification, and the number of runs
  of the index tool in a trace.
\<close>

definition rebuild_needed :: "env \<Rightarrow> bool \<Rightarrow> (string \<rightharpoonup> string) \<Rightarrow> string \<Rightarrow> string \<Rightarrow> world
                              \<Rightarrow> bool" where
  "rebuild_needed e input_missing gloss_files gloss fname_out w \<longleftrightarrow>
     input_missing \<or> \<not> isfile fname_out w \<or>
     (case gloss_files gloss of None \<Rightarrow> True | Some old \<Rightarrow> read_file e fname_out w \<noteq> Inr old)"

definition output_unreadable :: "env \<Rightarrow> (string \<rightharpoonup> string) \<Rightarrow> string \<Rightarrow> string \<Rightarrow> world
                                 \<Rightarrow> error option" where
  \<comment> \<open>the error of comparing the output file with the snapshot: the file exists, the
      snapshot holds the glossary, and the file cannot be read as text\<close>
  "output_unreadable e gloss_files gloss fname_out w =
     (if isfile fname_out w \<and> gloss_files gloss \<noteq> None
      then (case read_file e fname_out w of Inl err \<Rightarrow> Some err | Inr _ \<Rightarrow> None)
      else None)"

definition index_runs :: "event list \<Rightarrow> nat" where
  "index_runs tr =
     length (filter (\<lambda>ev. case ev of Exec (c # _) \<Rightarrow> c = ''makeindex'' | _ \<Rightarrow> False) tr)"

text \<open>A glossary declaration as the glossaries package writes it to the auxiliary file.\<close>

definition newglossary_line :: "string \<Rightarrow> string \<Rightarrow> string \<Rightarrow> string \<Rightarrow> string" where
  "newglossary_line name lg ext_i ext_o =
     BSL # ''@newglossary{'' @ name @ ''}{'' @ lg @ ''}{'' @ ext_i @ ''}{'' @ ext_o @ ''}'' @ [NL]"

text \<open>
  Whether a result is the exception \<^verbatim>\<open>LatexMkError\<close>, the one \<^verbatim>\<open>main\<close> handles.
\<close>

fun is_LatexMkError :: "error + 'a \<Rightarrow> bool" where
  "is_LatexMkError (Inl (LatexMkError m)) = True"
| "is_LatexMkError r = False"


text \<open>
  The text \<^verbatim>\<open>check_errors\<close> makes of the errors it finds in the compiler log, and its
  pointer to the log file.
\<close>

definition error_lines :: "LatexMaker \<Rightarrow> string" where
  \<comment> \<open>the text \<^verbatim>\<open>check_errors\<close> makes of the matches of \<^verbatim>\<open>ERROR_PATTTERN\<close>\<close>
  "error_lines s =
     join [NL] (map (\<lambda>x. strip (filter (\<lambda>c. c \<noteq> CR) x))
                  (filter (\<lambda>x. strip x \<noteq> []) (concat (re_findall ERROR_PATTTERN 3 (out s)))))"

definition see_log :: "LatexMaker \<Rightarrow> string" where
  "see_log s = ''See '' @ [DQ] @ project_name s @ ''.log'' @ [DQ] @ '' for details.''"

text \<open>
  The runs of \<^verbatim>\<open>bibtex\<close> in a trace, and what the bibliography pass changes of an object:
  the name of the bibliography and the runs of \<^verbatim>\<open>bibtex\<close>.
\<close>

definition bibtex_runs :: "event list \<Rightarrow> nat" where
  "bibtex_runs tr =
     length (filter (\<lambda>ev. case ev of Exec [c, _] \<Rightarrow> c = ''bibtex'' | _ \<Rightarrow> False) tr)"

definition bib_state :: "LatexMaker \<Rightarrow> string \<times> nat" where
  "bib_state s = (bib_file s, bibtex_runs (trace s))"

section \<open>Worked inputs\<close>

text \<open>
  The inputs the closed theorems below run the program on: the options of a plain call, the
  object \<^verbatim>\<open>LatexMaker('main.tex', opts)\<close> in a given world, and an environment whose
  compiler writes a log, an auxiliary file and the document, whose other tools leave the files
  alone, whose \<^verbatim>\<open>re\<close> reads a string without operators other than the dot, and whose
  encoding is ASCII, the encoding of the C locale.
\<close>

definition plain_pattern :: "string \<Rightarrow> regex" where
  "plain_pattern s = seqs (map (\<lambda>c. if c = CHR ''.'' then One AnyChar else One (Chr c)) s)"

definition ex_opts :: options where
  "ex_opts = \<lparr>opt_clean = False, opt_pdf = True, opt_command = None, opt_exit_on_error = True,
              opt_check_cite = False, opt_preview = False, opt_notify = False\<rparr>"

definition ex_maker :: "options \<Rightarrow> world \<Rightarrow> LatexMaker" where
  "ex_maker opts w =
     \<lparr>world = w, trace = [], opt = opts, project_name = ''main'', latex_cmd = ''pdflatex'',
      out = [], glossaries = [], latex_run_counter = 0, bib_file = [], old_dir = []\<rparr>"

definition ex_env :: "string \<Rightarrow> string \<Rightarrow> env" where
  "ex_env log_text aux_text =
     \<lparr>popen = (\<lambda>cmd w.
         if cmd = [] then Inl ''no command''
         else if hd cmd = ''pdflatex''
         then Inr (w\<lparr>nodes := AList.update ''main.pdf'' (File ''%PDF'' (clock w))
                              (AList.update ''main.aux'' (File aux_text (clock w))
                                (AList.update ''main.log'' (File log_text (clock w)) (nodes w)))\<rparr>)
         else Inr w),
      re_compile = (\<lambda>s. Some (plain_pattern s)),
      sleep = (\<lambda>w. w),
      platform = ''linux'',
      decode = (\<lambda>bytes. if list_all (\<lambda>b. \<not> digit7 b) bytes then Some bytes else None),
      str_args = (\<lambda>f opts. ''Namespace(filename='' @ [CHR 0x27] @ f @ [CHR 0x27] @ '')''),
      startfile = (\<lambda>f w. Inr w),
      notify2_loaded = False\<rparr>"

definition ex_clean_opts :: options where
  "ex_clean_opts = ex_opts\<lparr>opt_clean := True\<rparr>"

definition ex_cite_opts :: options where
  "ex_cite_opts = ex_opts\<lparr>opt_check_cite := True\<rparr>"

definition ex_bib_world :: "string \<Rightarrow> nat \<Rightarrow> string \<Rightarrow> nat \<Rightarrow> world" where
  "ex_bib_world bib t1 saved t2 =
     \<lparr>nodes = [(''main.tex'', File ''x'' 1),
                (''main.aux'', File (BSL # ''bibdata{refs}'' @ [NL]) 3),
                (''refs.bib'', File bib t1),
                (''refs.bib.old'', File saved t2)],
      clock = 9\<rparr>"

definition ex_gloss_maker :: LatexMaker where
  "ex_gloss_maker =
     (ex_maker ex_opts \<lparr>nodes = [(''main.tex'', File ''x'' 1), (''main.glo'', File ''entries'' 2)],
                        clock = 3\<rparr>)
       \<lparr>glossaries := [(''main'', ''glo'', ''gls'')]\<rparr>"

text \<open>
  An installation where no external program can be started.
\<close>

definition ex_no_tools_env :: env where
  "ex_no_tools_env = (ex_env [] [])\<lparr>popen := (\<lambda>cmd w. Inl ''No such file or directory'')\<rparr>"

section \<open>Sequencing and file lemmas\<close>

lemma bind_Inl: "fst (m s) = Inl err \<Longrightarrow> bind m f s = (Inl err, snd (m s))"
  by (cases "m s") (simp add: bind_def)

lemma bind_Inr: "m s = (Inr x, s') \<Longrightarrow> bind m f s = f x s'"
  by (simp add: bind_def)

lemma read_file_isfile: "read_file e p w = Inr content \<Longrightarrow> isfile p w"
  by (auto simp: isfile_def read_file_def split: option.splits node.splits)

lemma read_file_errors:
  "read_file e p w = Inl err \<Longrightarrow>
     (\<not> isfile p w \<and> err = OSError p) \<or> (isfile p w \<and> (\<exists>bytes. err = UnicodeDecodeError bytes))"
  by (auto simp: isfile_def read_file_def split: option.splits node.splits)

lemma isfile_read_file:
  "isfile p w \<Longrightarrow> (\<exists>content. read_file e p w = Inr content)
                   \<or> (\<exists>bytes. read_file e p w = Inl (UnicodeDecodeError bytes))"
  by (auto simp: isfile_def read_file_def split: option.splits node.splits)

lemma count_citations_Inr:
  "(\<exists>counter. count_citations e f w = Inr counter) \<longleftrightarrow> (\<exists>content. read_file e f w = Inr content)"
  by (auto simp: count_citations_def split: sum.splits)

lemma count_citations_Inl:
  "count_citations e f w = Inl err \<longleftrightarrow> read_file e f w = Inl err"
  by (auto simp: count_citations_def split: sum.splits)

lemma case_error_Inl:
  "(case c of Inl x \<Rightarrow> Inl x | Inr _ \<Rightarrow> Inl d) = Inl (case c of Inl x \<Rightarrow> x | Inr _ \<Rightarrow> d)"
  by (cases c) auto

lemma main_given_file:
  assumes "construct_and_run e f opts (log_msg Debug (''arguments: '' @ str_args e f opts) p) = (r, p')"
    and "opt_notify opts \<longrightarrow> notify2_loaded e"
  shows "main e [] (Some f) opts p =
           (if is_LatexMkError r then (Inl (SystemExit 1), log_msg Error ''! Exiting...'' p')
            else (r, p'))"
proof (cases "is_LatexMkError r")
  case True
  then obtain m where "r = Inl (LatexMkError m)"
    by (cases r rule: is_LatexMkError.cases) auto
  with assms True show ?thesis
    by (auto simp: main_def bind_def resolve_filename_def ret_def raise_def)
next
  case False
  then have "(case (r, p') of
           (Inl (LatexMkError _), s') \<Rightarrow> raise (SystemExit 1) (log_msg Error ''! Exiting...'' s')
         | (r, s') \<Rightarrow> (r, s')) = (r, p')"
    by (cases r rule: is_LatexMkError.cases) (auto split: error.splits)
  with assms False show ?thesis
    by (auto simp: main_def bind_def resolve_filename_def ret_def)
qed

section \<open>The table-of-contents hash (C4)\<close>

lemma read_latex_files_toc:
  assumes "isfile (project_name s @ ''.toc'') (world s)"
  shows "fst (read_latex_files e s) =
           (case (if isfile (project_name s @ ''.aux'') (world s)
                  then generate_citation_counter e s else Inr []) of
              Inl err \<Rightarrow> Inl err
            | Inr _ \<Rightarrow> Inl (NameError ''hashlib''))
       \<and> world (snd (read_latex_files e s)) = world s
       \<and> trace (snd (read_latex_files e s)) = trace s
       \<and> latex_run_counter (snd (read_latex_files e s)) = latex_run_counter s"
proof (cases "isfile (project_name s @ ''.aux'') (world s)")
  case False
  then show ?thesis using assms
    by (simp add: read_latex_files_def bind_def ret_def raise_def)
next
  case True
  show ?thesis
  proof (cases "generate_citation_counter e s")
    case (Inl err)
    with True show ?thesis
      by (simp add: read_latex_files_def bind_def lift_def)
  next
    case (Inr cc)
    then obtain content where r: "read_file e (project_name s @ ''.aux'') (world s) = Inr content"
      by (auto simp: generate_citation_counter_def Let_def split: sum.splits)
    show ?thesis using assms True
      by (simp add: read_latex_files_def bind_def lift_def Inr read_glossaries_def r ret_def raise_def)
  qed
qed

text \<open>
  C4. The claim: a table-of-contents file whose hash differs before and after the first pass
  gets exactly one more compiler pass. The code never compares the two hashes: whenever the
  table-of-contents file exists when \<^verbatim>\<open>run\<close> starts, the snapshot raises \<^verbatim>\<open>NameError\<close>
  (the name \<^verbatim>\<open>hashlib\<close> is not bound) before any compiler pass, with nothing run and
  nothing logged, unless reading the citations of an existing auxiliary file has raised its
  own error before that; and \<^verbatim>\<open>_is_toc_changed\<close> raises the same \<^verbatim>\<open>NameError\<close> whenever the
  file exists when it is called.
\<close>

theorem toc_file_stops_run:
  assumes "isfile (project_name s @ ''.toc'') (world s)"
  shows "fst (run e s) =
           (case (if isfile (project_name s @ ''.aux'') (world s)
                  then generate_citation_counter e s else Inr []) of
              Inl err \<Rightarrow> Inl err
            | Inr _ \<Rightarrow> Inl (NameError ''hashlib''))
       \<and> (\<exists>err. fst (run e s) = Inl err)
       \<and> trace (snd (run e s)) = trace s
       \<and> latex_run_counter (snd (run e s)) = latex_run_counter s
       \<and> is_toc_changed toc_sha s = (Inl (NameError ''hashlib''), s)"
proof -
  let ?s0 = "s\<lparr>old_dir := (if opt_clean (opt s) then listdir (world s) else [])\<rparr>"
  define err where
    "err = (case (if isfile (project_name s @ ''.aux'') (world s)
                  then generate_citation_counter e s else Inr []) of
              Inl x \<Rightarrow> x
            | Inr _ \<Rightarrow> NameError ''hashlib'')"
  have g: "generate_citation_counter e ?s0 = generate_citation_counter e s"
    by (simp add: generate_citation_counter_def Let_def split: sum.splits)
  have "isfile (project_name ?s0 @ ''.toc'') (world ?s0)" using assms by simp
  from read_latex_files_toc [OF this, of e]
  have f: "fst (read_latex_files e ?s0) = Inl err"
    and k: "trace (snd (read_latex_files e ?s0)) = trace s"
           "latex_run_counter (snd (read_latex_files e ?s0)) = latex_run_counter s"
    unfolding g case_error_Inl err_def by simp_all
  from f have b: "run_build e s = (Inl err, snd (read_latex_files e ?s0))"
    unfolding run_build_def by (intro bind_Inl) simp
  then have "run e s = (Inl err, snd (read_latex_files e ?s0))"
    unfolding run_def by (simp add: bind_def)
  with k show ?thesis using assms
    unfolding case_error_Inl err_def [symmetric]
    by (simp add: is_toc_changed_def raise_def)
qed

theorem toc_file_stops_run_witness:
  "isfile ''main.toc'' \<lparr>nodes = [(''main.tex'', File ''x'' 1), (''main.toc'', File ''y'' 1)], clock = 2\<rparr>
   \<and> fst (run (ex_env [] [])
            (ex_maker ex_opts \<lparr>nodes = [(''main.tex'', File ''x'' 1), (''main.toc'', File ''y'' 1)],
                                clock = 2\<rparr>))
       = Inl (NameError ''hashlib'')
   \<and> trace (snd (run (ex_env [] [])
            (ex_maker ex_opts \<lparr>nodes = [(''main.tex'', File ''x'' 1), (''main.toc'', File ''y'' 1)],
                                clock = 2\<rparr>))) = []"
proof -
  have h: "isfile (project_name (ex_maker ex_opts \<lparr>nodes = [(''main.tex'', File ''x'' 1),
              (''main.toc'', File ''y'' 1)], clock = 2\<rparr>) @ ''.toc'')
            (world (ex_maker ex_opts \<lparr>nodes = [(''main.tex'', File ''x'' 1),
              (''main.toc'', File ''y'' 1)], clock = 2\<rparr>))"
    by (simp add: ex_maker_def isfile_def)
  show ?thesis
    using toc_file_stops_run [OF h, of "ex_env [] []" "[]"]
    by (simp add: ex_maker_def isfile_def)
qed

section \<open>The glossary registry (C6)\<close>

lemma map_of_glossary_fold:
  "map_of (foldl (\<lambda>gl m. AList.update (grp m (Suc 0)) (grp m 2, grp m 3) gl) gl0 ms) name =
     (case find (\<lambda>m. grp m (Suc 0) = name) (rev ms) of
        Some m \<Rightarrow> Some (grp m 2, grp m 3)
      | None \<Rightarrow> map_of gl0 name)"
  by (induction ms rule: rev_induct) (simp_all add: update_conv')

text \<open>
  C6, as amended. When the main auxiliary file can be read, \<^verbatim>\<open>read_glossaries\<close> returns
  and leaves a registry that maps every name declared by a \<^verbatim>\<open>\@newglossary\<close> directive of
  the file to the extension pair of its last declaration, overwriting an entry the name had;
  every other name keeps the entry it had before the call. Nothing is ever removed.
\<close>

theorem read_glossaries_keeps_old_entries:
  assumes "read_file e (project_name s @ ''.aux'') (world s) = Inr main_aux"
  shows "fst (read_glossaries e s) = Inr () \<and>
           (\<forall>name. map_of (glossaries (snd (read_glossaries e s))) name =
              (case find (\<lambda>m. grp m 1 = name) (rev (re_finditer NEWGLOSSARY_PATTERN main_aux)) of
                 Some m \<Rightarrow> Some (grp m 2, grp m 3)
               | None \<Rightarrow> map_of (glossaries s) name))"
  using assms by (simp add: read_glossaries_def ret_def map_of_glossary_fold)

theorem read_glossaries_keeps_old_entries_witness:
  "fst (read_glossaries (ex_env [] [])
         ((ex_maker ex_opts
            \<lparr>nodes = [(''main.aux'', File (newglossary_line ''main'' ''glg'' ''gls'' ''glo'') 1)],
             clock = 2\<rparr>)
          \<lparr>glossaries := [(''old'', ''ols'', ''olo''), (''main'', ''x'', ''y'')]\<rparr>)) = Inr ()
   \<and> map_of (glossaries (snd (read_glossaries (ex_env [] [])
         ((ex_maker ex_opts
            \<lparr>nodes = [(''main.aux'', File (newglossary_line ''main'' ''glg'' ''gls'' ''glo'') 1)],
             clock = 2\<rparr>)
          \<lparr>glossaries := [(''old'', ''ols'', ''olo''), (''main'', ''x'', ''y'')]\<rparr>)))) ''main''
       = Some (''gls'', ''glo'')
   \<and> map_of (glossaries (snd (read_glossaries (ex_env [] [])
         ((ex_maker ex_opts
            \<lparr>nodes = [(''main.aux'', File (newglossary_line ''main'' ''glg'' ''gls'' ''glo'') 1)],
             clock = 2\<rparr>)
          \<lparr>glossaries := [(''old'', ''ols'', ''olo''), (''main'', ''x'', ''y'')]\<rparr>)))) ''old''
       = Some (''ols'', ''olo'')"
proof -
  let ?w = "\<lparr>nodes = [(''main.aux'', File (newglossary_line ''main'' ''glg'' ''gls'' ''glo'') 1)],
             clock = 2\<rparr>"
  let ?s = "(ex_maker ex_opts ?w)\<lparr>glossaries := [(''old'', ''ols'', ''olo''), (''main'', ''x'', ''y'')]\<rparr>"
  have r: "read_file (ex_env [] []) (project_name ?s @ ''.aux'') (world ?s)
             = Inr (newglossary_line ''main'' ''glg'' ''gls'' ''glo'')"
    by code_simp
  have m: "re_finditer NEWGLOSSARY_PATTERN (newglossary_line ''main'' ''glg'' ''gls'' ''glo'')
             = [[(3, ''glo''), (2, ''gls''), (1, ''main'')]]"
    by code_simp
  from read_glossaries_keeps_old_entries [OF r]
  show ?thesis
    by (simp add: m grp_def ex_maker_def)
qed

text \<open>
  C6 as stated fails: the registry is not made afresh. A glossary \<^verbatim>\<open>old\<close> declared by the
  auxiliary file of an earlier build is registered by the snapshot; the compiler pass writes an
  auxiliary file that declares \<^verbatim>\<open>main\<close> alone; after the \<^verbatim>\<open>read_glossaries\<close> that follows
  the pass (the first three steps of \<^verbatim>\<open>run\<close>) the registry still holds \<^verbatim>\<open>old\<close>.
\<close>

theorem read_glossaries_stale_counterexample:
  "map (\<lambda>m. grp m 1) (re_finditer NEWGLOSSARY_PATTERN (newglossary_line ''main'' ''glg'' ''gls'' ''glo''))
     = [''main'']
   \<and> glossaries (snd (bind (read_latex_files (ex_env [] [])) (\<lambda>_.
         bind (latex_run (ex_env [] (newglossary_line ''main'' ''glg'' ''gls'' ''glo''))) (\<lambda>_.
         read_glossaries (ex_env [] [])))
        (ex_maker ex_opts
           \<lparr>nodes = [(''main.tex'', File ''x'' 1),
                      (''main.aux'', File (newglossary_line ''old'' ''olg'' ''ols'' ''olo'') 1)],
            clock = 2\<rparr>)))
     = [(''old'', ''ols'', ''olo''), (''main'', ''gls'', ''glo'')]"
  by code_simp

section \<open>The compiler passes of a run (C1)\<close>

lemma keepsD: "keeps R m \<Longrightarrow> m s = (r, s') \<Longrightarrow> R s s'"
  by (simp add: keeps_def)

lemma keepsI: "(\<And>s r s'. m s = (r, s') \<Longrightarrow> R s s') \<Longrightarrow> keeps R m"
  by (simp add: keeps_def)

lemma bindE:
  assumes "bind m f s = (r, s')"
  obtains (raised) err where "m s = (Inl err, s')" "r = Inl err"
        | (returned) x s1 where "m s = (Inr x, s1)" "f x s1 = (r, s')"
  using assms by (auto simp: bind_def split: prod.splits sum.splits)

lemma bind_assoc: "bind (bind m f) g = bind m (\<lambda>x. bind (f x) g)"
  by (auto simp: bind_def fun_eq_iff split: prod.splits sum.splits)

lemma within_refl: "within 0 s s"
  by (simp add: within_def)

lemma within_trans: "within a s s1 \<Longrightarrow> within b s1 s2 \<Longrightarrow> within (a + b) s s2"
  by (auto simp: within_def passes_def latex_cmdline_def)

lemma within_trans0: "within 0 s s1 \<Longrightarrow> within 0 s1 s2 \<Longrightarrow> within 0 s s2"
  using within_trans [of 0 s s1 0 s2] by simp

lemma within_mono: "within a s s' \<Longrightarrow> a \<le> b \<Longrightarrow> within b s s'"
  by (auto simp: within_def)

lemma keeps_ret: "keeps (within 0) (ret x)"
  by (simp add: keeps_def ret_def within_refl)

lemma keeps_raise: "keeps (within 0) (raise err)"
  by (simp add: keeps_def raise_def within_refl)

lemma keeps_ret_any: "keeps (within n) (ret x)"
  by (simp add: keeps_def ret_def within_def)

lemma keeps_ret_state: "keeps (within 0) (\<lambda>s. ret (f s) s)"
  by (simp add: keeps_def ret_def within_refl)

lemma keeps_lift: "keeps (within 0) (lift f)"
  by (simp add: keeps_def lift_def within_refl)

lemma keeps_bind:
  assumes "keeps (within a) m" and "\<And>x. keeps (within b) (f x)"
  shows "keeps (within (a + b)) (bind m f)"
proof (rule keepsI)
  fix s r s'
  assume "bind m f s = (r, s')"
  then show "within (a + b) s s'"
  proof (cases rule: bindE)
    case (raised err)
    with assms(1) have "within a s s'" by (auto dest: keepsD)
    then show ?thesis by (rule within_mono) simp
  next
    case (returned x s1)
    with assms have "within a s s1" "within b s1 s'" by (auto dest: keepsD)
    then show ?thesis by (rule within_trans)
  qed
qed

lemma keeps_bind0:
  assumes "keeps (within 0) m" and "\<And>x. keeps (within 0) (f x)"
  shows "keeps (within 0) (bind m f)"
  using keeps_bind [of 0 m 0 f] assms by simp

lemma keeps_mono: "keeps (within a) m \<Longrightarrow> a \<le> b \<Longrightarrow> keeps (within b) m"
  by (auto simp: keeps_def intro: within_mono)

lemma keeps_cond:
  assumes "keeps R m1" and "keeps R m2"
  shows "keeps R (\<lambda>s. if P s then m1 s else m2 s)"
  using assms by (simp add: keeps_def)

lemma within_log: "within 0 s (log_msg lvl msg s)"
  by (simp add: within_def passes_def log_msg_def)

lemma within_fatal: "fatal_error msg s = (r, s') \<Longrightarrow> within 0 s s'"
  by (auto simp: fatal_error_def raise_def within_log)

lemma within_Popen_other:
  assumes "Popen e cmd s = Inr s2" and "cmd \<noteq> latex_cmdline s"
  shows "within 0 s s2"
  using assms by (auto simp: Popen_def within_def passes_def split: sum.splits)

lemma within_Popen_latex:
  assumes "Popen e (latex_cmdline s) s = Inr s2"
  shows "within 1 s (s2\<lparr>latex_run_counter := latex_run_counter s2 + 1\<rparr>)"
  using assms by (auto simp: Popen_def within_def passes_def split: sum.splits)

lemma keeps_check_errors: "keeps (within 0) check_errors"
  by (rule keepsI)
     (auto simp: check_errors_def Let_def within_def passes_def log_msg_def ret_def raise_def
           split: if_splits)

lemma keeps_read_glossaries: "keeps (within 0) (read_glossaries e)"
  by (rule keepsI)
     (auto simp: read_glossaries_def within_def passes_def ret_def raise_def split: sum.splits)

lemma keeps_is_toc_changed: "keeps (within 0) (is_toc_changed sha)"
  by (rule keepsI)
     (auto simp: is_toc_changed_def within_refl ret_def raise_def split: if_splits)

lemma keeps_latex_run: "keeps (within 1) (latex_run e)"
proof (rule keepsI)
  fix s r s'
  assume run: "latex_run e s = (r, s')"
  define s1 where "s1 = log_msg Info (''Running '' @ latex_cmd s @ ''...'') s"
  have l: "within 0 s s1" unfolding s1_def by (rule within_log)
  have "within 1 s1 s'"
  proof (cases "Popen e (latex_cmdline s1) s1")
    case (Inl msg)
    with run have "fatal_error (NO_LATEX_ERROR (latex_cmd s1)) s1 = (r, s')"
      by (simp add: latex_run_def Let_def s1_def)
    then have "within 0 s1 s'" by (rule within_fatal)
    then show ?thesis by (rule within_mono) simp
  next
    case (Inr s2)
    define s3 where "s3 = s2\<lparr>latex_run_counter := latex_run_counter s2 + 1\<rparr>"
    have s3: "within 1 s1 s3" unfolding s3_def using Inr by (rule within_Popen_latex)
    show ?thesis
    proof (cases "read_file e (project_name s3 @ ''.log'') (world s3)")
      case (Inl err)
      with run Inr have "s' = s3"
        by (simp add: latex_run_def Let_def raise_def s1_def s3_def)
      with s3 show ?thesis by simp
    next
      case (Inr content)
      with run \<open>Popen e (latex_cmdline s1) s1 = Inr s2\<close>
      have "check_errors (s3\<lparr>out := content\<rparr>) = (r, s')"
        by (simp add: latex_run_def Let_def s1_def s3_def)
      then have "within 0 (s3\<lparr>out := content\<rparr>) s'"
        using keeps_check_errors by (rule keepsD [rotated])
      moreover have "within 1 s1 (s3\<lparr>out := content\<rparr>)"
        using s3 by (simp add: within_def)
      ultimately have "within (1 + 0) s1 s'" by (rule within_trans [rotated])
      then show ?thesis by simp
    qed
  qed
  with l have "within (0 + 1) s s'" by (rule within_trans)
  then show "within 1 s s'" by simp
qed

lemma keeps_read_latex_files: "keeps (within 0) (read_latex_files e)"
  unfolding read_latex_files_def
  by (intro keeps_bind0 keeps_cond keeps_lift keeps_read_glossaries keeps_ret keeps_raise
            keeps_ret_state)

lemma makeindex_not_latex: "makeindex_cmdline s a b \<noteq> latex_cmdline s'"
  by (simp add: makeindex_cmdline_def latex_cmdline_def LATEX_FLAGS_def)

lemma within_makeindex_loop:
  "makeindex_loop e gf gs changed s = (r, s') \<Longrightarrow> within 0 s s'"
proof (induction gs arbitrary: changed s)
  case Nil
  then show ?case by (simp add: ret_def within_refl)
next
  case (Cons g gs)
  obtain gloss ext_i ext_o where g: "g = (gloss, ext_i, ext_o)" by (cases g) auto
  define fname_in where "fname_in = project_name s @ ''.'' @ ext_i"
  define fname_out where "fname_out = project_name s @ ''.'' @ ext_o"
  define s1 where "s1 = log_msg Info (''Running makeindex ('' @ gloss @ '')...'') s"
  note unf = makeindex_loop.simps(2) [of e gf gloss ext_i ext_o gs changed s,
      unfolded Let_def, folded fname_in_def fname_out_def s1_def, folded g]
  have l: "within 0 s s1" unfolding s1_def by (rule within_log)
  show ?case
  proof (cases "make_gloss e gf gloss fname_in fname_out s")
    case (Inl err)
    with Cons.prems unf show ?thesis by (simp add: raise_def within_refl)
  next
    case mk: (Inr make)
    show ?thesis
    proof (cases make)
      case False
      with Cons.prems unf mk have "makeindex_loop e gf gs changed s = (r, s')"
        by simp
      then show ?thesis by (rule Cons.IH)
    next
      case True
      show ?thesis
      proof (cases "Popen e (makeindex_cmdline s1 fname_in fname_out) s1")
        case (Inl msg)
        with Cons.prems unf mk True
        have "fatal_error (NO_LATEX_ERROR ''makeindex'') s1 = (r, s')" by simp
        then have "within 0 s1 s'" by (rule within_fatal)
        with l show ?thesis by (rule within_trans0)
      next
        case (Inr s2)
        then have "within 0 s1 s2" using makeindex_not_latex by (rule within_Popen_other)
        with l have a: "within 0 s s2" by (rule within_trans0)
        from Cons.prems unf mk True Inr
        have "makeindex_loop e gf gs True s2 = (r, s')" by simp
        then have "within 0 s2 s'" by (rule Cons.IH)
        with a show ?thesis by (rule within_trans0)
      qed
    qed
  qed
qed

lemma keeps_makeindex_runs: "keeps (within 0) (makeindex_runs e gf)"
  by (rule keepsI) (auto simp: makeindex_runs_def dest: within_makeindex_loop)


lemma keeps_need_bib_run: "keeps (within 0) (need_bib_run e old)"
proof (rule keepsI)
  fix s r s'
  assume "need_bib_run e old s = (r, s')"
  then have "s' = s \<or> (\<exists>b. s' = s\<lparr>bib_file := b\<rparr>)
             \<or> (\<exists>b. s' = log_msg Warning ''Could not find *.bib file.'' (s\<lparr>bib_file := b\<rparr>))"
    by (auto simp: need_bib_run_def Let_def ret_def raise_def
             split: sum.splits option.splits if_splits)
  then show "within 0 s s'"
    by (auto simp: within_def passes_def log_msg_def)
qed

lemma bibtex_not_latex: "[''bibtex'', p] \<noteq> latex_cmdline s"
  by (simp add: latex_cmdline_def LATEX_FLAGS_def)

lemma keeps_bibtex_run: "keeps (within 0) (bibtex_run e)"
proof (rule keepsI)
  fix s r s'
  assume run: "bibtex_run e s = (r, s')"
  define s1 where "s1 = log_msg Info ''Running bibtex...'' s"
  have l: "within 0 s s1" unfolding s1_def by (rule within_log)
  have "within 0 s1 s'"
  proof (cases "Popen e [''bibtex'', project_name s1] s1")
    case (Inl msg)
    with run have "fatal_error (NO_LATEX_ERROR ''bibtex'') s1 = (r, s')"
      by (simp add: bibtex_run_def Let_def s1_def)
    then show ?thesis by (rule within_fatal)
  next
    case (Inr s2)
    then have a: "within 0 s1 s2" using bibtex_not_latex by (rule within_Popen_other)
    from run Inr have "s' = s2 \<or> (\<exists>w. s' = s2\<lparr>world := w\<rparr>)"
      by (auto simp: bibtex_run_def Let_def s1_def ret_def raise_def split: sum.splits)
    then have "within 0 s2 s'" by (auto simp: within_def)
    with a show ?thesis by (rule within_trans0)
  qed
  with l show "within 0 s s'" by (rule within_trans0)
qed

lemma rerun_loop_bound:
  "rerun_loop e s = (r, s') \<Longrightarrow>
     within (MAX_RUNS - latex_run_counter s) s s'"
proof (induction e s rule: rerun_loop.induct)
  case (1 e s)
  show ?case
  proof (cases "latex_run_counter s < MAX_RUNS \<and> need_latex_rerun s")
    case False
    with "1.prems" have "s' = s" by (auto simp: ret_def split: if_splits)
    then show ?thesis using within_refl [of s] by (auto intro: within_mono)
  next
    case True
    obtain r1 s1 where lr: "latex_run e s = (r1, s1)" by (cases "latex_run e s")
    then have w1: "within 1 s s1" using keeps_latex_run by (rule keepsD [rotated])
    show ?thesis
    proof (cases r1)
      case (Inl err)
      with "1.prems" True lr have "s' = s1" by simp
      with w1 True show ?thesis by (auto intro: within_mono)
    next
      case (Inr x)
      with lr have c: "latex_run_counter s1 = Suc (latex_run_counter s)"
        by (auto dest: latex_run_counts)
      from "1.prems" True lr Inr have "rerun_loop e s1 = (r, s')" by simp
      with "1.IH" True lr Inr have "within (MAX_RUNS - latex_run_counter s1) s1 s'"
        by auto
      with w1 have "within (1 + (MAX_RUNS - latex_run_counter s1)) s s'"
        by (rule within_trans)
      moreover have "1 + (MAX_RUNS - latex_run_counter s1) = MAX_RUNS - latex_run_counter s"
        using c True by arith
      ultimately show ?thesis by simp
    qed
  qed
qed

lemma foldl_log_within:
  "within 0 s (foldl (\<lambda>s' name. if P name then log_msg lvl (msg name) s' else s') s names)"
proof (induction names arbitrary: s)
  case Nil
  show ?case by (simp add: within_refl)
next
  case (Cons n ns)
  have "within 0 s (if P n then log_msg lvl (msg n) s else s)"
    by (simp add: within_refl within_log)
  then show ?case using Cons [of "if P n then log_msg lvl (msg n) s else s"]
    by (auto intro: within_trans0)
qed

lemma keeps_run_check_cite: "keeps (within 0) (run_check_cite e)"
proof (rule keepsI)
  fix s r s'
  assume "run_check_cite e s = (r, s')"
  then show "within 0 s s'"
    by (auto simp: run_check_cite_def Let_def ret_def raise_def within_refl foldl_log_within
             split: if_splits sum.splits)
qed

lemma keeps_run_clean: "keeps (within 0) run_clean"
  by (rule keepsI)
     (auto simp: run_clean_def Let_def ret_def raise_def within_def
           split: if_splits sum.splits)

lemma open_not_latex: "[a, b] \<noteq> latex_cmdline s"
  by (simp add: latex_cmdline_def LATEX_FLAGS_def)

lemma keeps_open_preview: "keeps (within 0) (open_preview e)"
proof (rule keepsI)
  fix s r s'
  assume run: "open_preview e s = (r, s')"
  define s1 where "s1 = log_msg Info ''Opening preview...'' s"
  have l: "within 0 s s1" unfolding s1_def by (rule within_log)
  have p: "within 0 s1 s2" if "Popen e [a, b] s1 = Inr s2" for a b s2
    using that open_not_latex by (rule within_Popen_other)
  from run have "within 0 s1 s'"
    unfolding open_preview_def Let_def s1_def [symmetric]
    by (auto simp: ret_def raise_def within_refl within_log dest: p
             split: if_splits sum.splits)
       (auto simp: within_def)
  with l show "within 0 s s'" by (rule within_trans0)
qed


lemma keeps_rerun_loop: "keeps (\<lambda>s s'. within (MAX_RUNS - latex_run_counter s) s s') (rerun_loop e)"
  by (rule keepsI) (rule rerun_loop_bound)

lemma keeps_notify: "keeps (within 0) (notify e msg x)"
  by (rule keepsI)
     (auto simp: notify_def ret_def raise_def within_def passes_def split: if_splits)

lemma keeps_run_finish: "keeps (within 0) (run_finish e)"
proof -
  have "keeps (within 0)
          (\<lambda>s. let msg = [CHR 0x27] @ project_name s @ ''.tex'' @ [CHR 0x27] @ '' compiled'';
                   s1 = log_msg Info msg s
               in if opt_notify (opt s1) then notify e msg None s1 else ret () s1)"
  proof (rule keepsI)
    fix s :: LatexMaker and r :: "error + unit" and s' :: LatexMaker
    let ?msg = "[CHR 0x27] @ project_name s @ ''.tex'' @ [CHR 0x27] @ '' compiled''"
    assume a: "(let msg = ?msg; s1 = log_msg Info msg s
                in if opt_notify (opt s1) then notify e msg None s1 else ret () s1) = (r, s')"
    have l: "within 0 s (log_msg Info ?msg s)" by (rule within_log)
    from a have "within 0 (log_msg Info ?msg s) s'"
      by (auto simp: Let_def ret_def within_refl split: if_splits
               dest: keepsD [OF keeps_notify])
    with l show "within 0 s s'" by (rule within_trans0)
  qed
  then show ?thesis
    unfolding run_finish_def
    by (intro keeps_bind0 keeps_cond keeps_open_preview keeps_ret)
qed


lemma run_build_within:
  assumes "run_build e s0 = (r, s')"
  shows "opt s' = opt s0 \<and> project_name s' = project_name s0 \<and> latex_cmd s' = latex_cmd s0
       \<and> old_dir s' = (if opt_clean (opt s0) then listdir (world s0) else [])
       \<and> latex_run_counter s0 \<le> latex_run_counter s'
       \<and> latex_run_counter s' \<le> max (latex_run_counter s0 + 3) MAX_RUNS
       \<and> passes s0 (trace s') + latex_run_counter s0 = passes s0 (trace s0) + latex_run_counter s'"
proof -
  define s where "s = s0\<lparr>old_dir := (if opt_clean (opt s0) then listdir (world s0) else [])\<rparr>"
  define before_loop where
    "before_loop = (\<lambda>(cite_counter, toc_sha, gloss_files).
       bind (latex_run e) (\<lambda>_.
       bind (read_glossaries e) (\<lambda>_.
       bind (makeindex_runs e gloss_files) (\<lambda>gloss_changed.
       bind (if gloss_changed then ret True else is_toc_changed toc_sha) (\<lambda>changed.
       bind (if changed then latex_run e else ret ()) (\<lambda>_.
       bind (need_bib_run e cite_counter) (\<lambda>needed.
       (if needed then bind (bibtex_run e) (\<lambda>_. latex_run e) else ret ()))))))))"
  have kb: "keeps (within 3) (before_loop x)" for x
  proof -
    obtain cc sha gf where x: "x = (cc, sha, gf)" by (cases x) auto
    have a: "keeps (within 0) (if gc then ret True else is_toc_changed sha)" for gc
      by (simp add: keeps_ret keeps_is_toc_changed)
    have b: "keeps (within 1) (if ch then latex_run e else ret ())" for ch
      using keeps_latex_run [of e] by (simp add: keeps_ret_any)
    have c0: "keeps (within (0 + 1)) (bind (bibtex_run e) (\<lambda>_. latex_run e))"
      by (intro keeps_bind keeps_bibtex_run keeps_latex_run)
    have c: "keeps (within 1) (if nd then bind (bibtex_run e) (\<lambda>_. latex_run e) else ret ())" for nd
      using c0 by (simp add: keeps_ret_any)
    have "keeps (within (1 + (0 + (0 + (0 + (1 + (0 + 1))))))) (before_loop x)"
      unfolding before_loop_def x prod.case
      by (intro keeps_bind keeps_latex_run keeps_read_glossaries keeps_makeindex_runs a b c
                keeps_need_bib_run)
    then show ?thesis by (simp add: numeral_3_eq_3)
  qed
  have rb: "run_build e s0 =
          bind (read_latex_files e) (\<lambda>x. bind (before_loop x) (\<lambda>_. rerun_loop e)) s"
  proof -
    have "(\<lambda>x. bind (before_loop x) (\<lambda>_. rerun_loop e)) =
          (\<lambda>(cite_counter, toc_sha, gloss_files).
             bind (latex_run e) (\<lambda>_.
             bind (read_glossaries e) (\<lambda>_.
             bind (makeindex_runs e gloss_files) (\<lambda>gloss_changed.
             bind (if gloss_changed then ret True else is_toc_changed toc_sha) (\<lambda>changed.
             bind (if changed then latex_run e else ret ()) (\<lambda>_.
             bind (need_bib_run e cite_counter) (\<lambda>needed.
             bind (if needed then bind (bibtex_run e) (\<lambda>_. latex_run e) else ret ()) (\<lambda>_.
             rerun_loop e))))))))"
      unfolding before_loop_def by (rule ext) (simp only: bind_assoc split_beta)
    then show ?thesis unfolding run_build_def s_def by simp
  qed
  have "within (0 + 3) s s' \<or>
        (\<exists>s2. within (0 + 3) s s2 \<and> within (MAX_RUNS - latex_run_counter s2) s2 s')"
    using assms unfolding rb
  proof (cases rule: bindE)
    case (raised err)
    then have "within 0 s s'" using keeps_read_latex_files by (auto dest: keepsD)
    then show ?thesis by (auto intro: within_mono)
  next
    case (returned x s1)
    then have w1: "within 0 s s1" using keeps_read_latex_files by (auto dest: keepsD)
    from returned(2) show ?thesis
    proof (cases rule: bindE)
      case (raised err)
      then have "within 3 s1 s'" using keepsD [OF kb] by blast
      with w1 show ?thesis by (auto dest: within_trans)
    next
      case (returned y s2)
      then have "within 3 s1 s2" using keepsD [OF kb] by blast
      with w1 have "within (0 + 3) s s2" by (rule within_trans)
      moreover from returned(2) have "within (MAX_RUNS - latex_run_counter s2) s2 s'"
        by (rule rerun_loop_bound)
      ultimately show ?thesis by blast
    qed
  qed
  then have "within (max 3 (MAX_RUNS - latex_run_counter s)) s s'
             \<and> latex_run_counter s' \<le> max (latex_run_counter s + 3) MAX_RUNS"
  proof
    assume "within (0 + 3) s s'"
    then show ?thesis by (auto simp: within_def)
  next
    assume "\<exists>s2. within (0 + 3) s s2 \<and> within (MAX_RUNS - latex_run_counter s2) s2 s'"
    then obtain s2 where a: "within (0 + 3) s s2"
      and b: "within (MAX_RUNS - latex_run_counter s2) s2 s'" by blast
    from within_trans [OF a b] a b show ?thesis
      by (auto simp: within_def)
  qed
  then show ?thesis
    by (auto simp: within_def s_def passes_def latex_cmdline_def)
qed

lemma run_within:
  assumes "run e s = (r, s')"
  shows "\<exists>s1. (run_build e s = (r, s1) \<or> (\<exists>x. run_build e s = (Inr x, s1))) \<and> within 0 s1 s'"
  using assms unfolding run_def
proof (cases rule: bindE)
  case (raised err)
  then show ?thesis using within_refl by blast
next
  case (returned x s1)
  have "keeps (within 0) (bind (run_check_cite e) (\<lambda>_. bind run_clean (\<lambda>_. run_finish e)))"
    by (intro keeps_bind0 keeps_run_check_cite keeps_run_clean keeps_run_finish)
  from keepsD [OF this returned(2)] returned(1) show ?thesis by blast
qed

text \<open>
  C1. Whatever the tools do and whatever the logs say, one \<^verbatim>\<open>run\<close> executes the compiler at
  most \<^verbatim>\<open>MAX_RUNS\<close> = 4 times: the trace gains at most four executions of the compiler's
  command line, however \<^verbatim>\<open>run\<close> ends (normally or by an exception). The counter
  \<^verbatim>\<open>latex_run_counter\<close> grows by exactly the number of these executions, so on an object as
  \<^verbatim>\<open>__init__\<close> leaves it (counter 0) the counter never exceeds 4.
\<close>

theorem run_compiler_passes_bounded:
  assumes "run e s = (r, s')"
  shows "passes s (trace s') + latex_run_counter s = passes s (trace s) + latex_run_counter s'
       \<and> passes s (trace s') \<le> passes s (trace s) + MAX_RUNS
       \<and> (latex_run_counter s = 0 \<longrightarrow> latex_run_counter s' \<le> MAX_RUNS)"
proof -
  from run_within [OF assms] obtain s1 r1 where b: "run_build e s = (r1, s1)"
    and w: "within 0 s1 s'" by blast
  from run_build_within [OF b] w show ?thesis
    by (auto simp: within_def passes_def latex_cmdline_def MAX_RUNS_def)
qed

theorem run_compiler_passes_bounded_witness:
  "latex_run_counter
     (snd (run (ex_env ''LaTeX Warning: There were undefined references.'' [])
            (ex_maker ex_opts \<lparr>nodes = [(''main.tex'', File ''x'' 1)], clock = 2\<rparr>))) = 4
   \<and> passes (ex_maker ex_opts \<lparr>nodes = [(''main.tex'', File ''x'' 1)], clock = 2\<rparr>)
        (trace (snd (run (ex_env ''LaTeX Warning: There were undefined references.'' [])
            (ex_maker ex_opts \<lparr>nodes = [(''main.tex'', File ''x'' 1)], clock = 2\<rparr>)))) = 4
   \<and> need_latex_rerun
        (snd (run (ex_env ''LaTeX Warning: There were undefined references.'' [])
            (ex_maker ex_opts \<lparr>nodes = [(''main.tex'', File ''x'' 1)], clock = 2\<rparr>)))"
proof -
  let ?e = "ex_env ''LaTeX Warning: There were undefined references.'' []"
  let ?s = "ex_maker ex_opts \<lparr>nodes = [(''main.tex'', File ''x'' 1)], clock = 2\<rparr>"
  have c: "latex_run_counter (snd (run ?e ?s)) = 4" by code_simp
  have n: "need_latex_rerun (snd (run ?e ?s))" by code_simp
  have z: "latex_run_counter ?s = 0" "trace ?s = []" by (simp_all add: ex_maker_def)
  from run_compiler_passes_bounded [of ?e ?s "fst (run ?e ?s)" "snd (run ?e ?s)"] c n z
  show ?thesis by (simp add: passes_def)
qed


section \<open>The cleanup (C9)\<close>

lemma clean_loop_filter:
  "clean_loop old ending names w =
     Inr (w\<lparr>nodes := filter (\<lambda>(n, _). \<not> (n \<in> set names \<and> \<not> (n \<in> set old \<or> endswith n ending)
                                          \<and> isfile n w)) (nodes w)\<rparr>)"
proof (induction names arbitrary: w)
  case Nil
  show ?case by (simp add: case_prod_beta)
next
  case (Cons f fs)
  show ?case
  proof (cases "f \<in> set old \<or> endswith f ending")
    case True
    then show ?thesis using Cons [of w]
      by (auto simp: case_prod_beta intro!: arg_cong [where f = "\<lambda>x. w\<lparr>nodes := x\<rparr>"] filter_cong)
  next
    case False
    show ?thesis
    proof (cases "isfile f w")
      case nf: False
      then have "\<exists>err. os_remove f w = Inl (OSError err)"
        by (auto simp: os_remove_def isfile_def split: option.splits node.splits)
      then show ?thesis using False nf Cons [of w]
        by (auto simp: case_prod_beta intro!: arg_cong [where f = "\<lambda>x. w\<lparr>nodes := x\<rparr>"] filter_cong)
    next
      case True
      define w' where "w' = w\<lparr>nodes := AList.delete f (nodes w)\<rparr>"
      from True have rm: "os_remove f w = Inr w'"
        by (auto simp: os_remove_def isfile_def w'_def split: option.splits node.splits)
      have other: "isfile n w' = isfile n w" if "n \<noteq> f" for n
        using that by (simp add: isfile_def w'_def AList.delete_conv')
      have "clean_loop old ending (f # fs) w = clean_loop old ending fs w'"
        using False rm by simp
      also have "\<dots> = Inr (w'\<lparr>nodes := filter (\<lambda>(n, _). \<not> (n \<in> set fs \<and>
                   \<not> (n \<in> set old \<or> endswith n ending) \<and> isfile n w')) (nodes w')\<rparr>)"
        by (rule Cons)
      also have "w'\<lparr>nodes := filter (\<lambda>(n, _). \<not> (n \<in> set fs \<and>
                   \<not> (n \<in> set old \<or> endswith n ending) \<and> isfile n w')) (nodes w')\<rparr> =
                 w\<lparr>nodes := filter (\<lambda>(n, _). \<not> (n \<in> set (f # fs) \<and>
                   \<not> (n \<in> set old \<or> endswith n ending) \<and> isfile n w)) (nodes w)\<rparr>"
      proof -
        have nodes': "nodes w' = filter (\<lambda>(n, _). n \<noteq> f) (nodes w)"
          by (auto simp: w'_def AList.delete_eq intro!: filter_cong)
        have upd: "w'\<lparr>nodes := X\<rparr> = w\<lparr>nodes := X\<rparr>" for X
          by (simp add: w'_def)
        have "filter (\<lambda>(n, _). \<not> (n \<in> set fs \<and>
                   \<not> (n \<in> set old \<or> endswith n ending) \<and> isfile n w'))
                (filter (\<lambda>(n, _). n \<noteq> f) (nodes w))
              = filter (\<lambda>(n, _). \<not> (n \<in> set (f # fs) \<and>
                   \<not> (n \<in> set old \<or> endswith n ending) \<and> isfile n w)) (nodes w)"
          unfolding filter_filter
        proof (rule filter_cong [OF refl])
          fix p assume "p \<in> set (nodes w)"
          obtain n v where p: "p = (n, v)" by (cases p)
          show "(case p of (n, _) \<Rightarrow> n \<noteq> f) \<and>
                (case p of (n, _) \<Rightarrow> \<not> (n \<in> set fs \<and> \<not> (n \<in> set old \<or> endswith n ending)
                                         \<and> isfile n w'))
                \<longleftrightarrow> (case p of (n, _) \<Rightarrow> \<not> (n \<in> set (f # fs) \<and>
                        \<not> (n \<in> set old \<or> endswith n ending) \<and> isfile n w))"
          proof (cases "n = f")
            case True
            with False \<open>isfile f w\<close> show ?thesis by (simp add: p)
          next
            case False
            with other [OF False] show ?thesis by (simp add: p)
          qed
        qed
        then show ?thesis by (simp add: nodes' upd)
      qed
      finally show ?thesis .
    qed
  qed
qed

lemma run_clean_result:
  assumes "opt_clean (opt s)"
  shows "run_clean s =
     (Inr (), s\<lparr>world := (world s)\<lparr>nodes :=
        filter (\<lambda>(n, _). n \<in> set (old_dir s)
                       \<or> endswith n (if opt_pdf (opt s) then ''.pdf'' else ''.dvi'')
                       \<or> \<not> isfile n (world s)) (nodes (world s))\<rparr>\<rparr>)"
proof -
  have "filter (\<lambda>(n, _). \<not> (n \<in> set (listdir (world s)) \<and> \<not> (n \<in> set (old_dir s) \<or> endswith n ending)
                                          \<and> isfile n (world s))) (nodes (world s))
        = filter (\<lambda>(n, _). n \<in> set (old_dir s) \<or> endswith n ending \<or> \<not> isfile n (world s))
            (nodes (world s))" for ending
    by (rule filter_cong) (force simp: listdir_def)+
  then show ?thesis using assms
    by (simp add: run_clean_def Let_def clean_loop_filter ret_def)
qed

text \<open>
  C9. With the clean flag set, when the build and the citation check have returned, the cleanup
  returns normally and leaves of the working directory exactly the entries that are in the
  listing taken when \<^verbatim>\<open>run\<close> started, or end with the output extension (\<^verbatim>\<open>.pdf\<close> when
  producing pdf, \<^verbatim>\<open>.dvi\<close> otherwise), or could not be removed (they are not regular files);
  the entries kept are untouched, and \<^verbatim>\<open>run\<close> goes on to its closing block from there.
\<close>

theorem run_clean_keeps_baseline:
  assumes "opt_clean (opt s0)"
    and "run_build e s0 = (Inr x, s1)"
    and "run_check_cite e s1 = (Inr y, s2)"
  shows "run_clean s2 =
     (Inr (), s2\<lparr>world := (world s2)\<lparr>nodes :=
        filter (\<lambda>(n, _). n \<in> set (listdir (world s0))
                       \<or> endswith n (if opt_pdf (opt s0) then ''.pdf'' else ''.dvi'')
                       \<or> \<not> isfile n (world s2)) (nodes (world s2))\<rparr>\<rparr>)
     \<and> run e s0 = run_finish e (snd (run_clean s2))"
proof -
  from run_build_within [OF assms(2)] assms(1)
  have a: "opt s1 = opt s0" "old_dir s1 = listdir (world s0)" by simp_all
  from keepsD [OF keeps_run_check_cite assms(3)]
  have b: "opt s2 = opt s1" "old_dir s2 = old_dir s1" by (simp_all add: within_def)
  have c: "opt_clean (opt s2)" using a b assms(1) by simp
  from run_clean_result [OF c] a b
  have d: "run_clean s2 =
     (Inr (), s2\<lparr>world := (world s2)\<lparr>nodes :=
        filter (\<lambda>(n, _). n \<in> set (listdir (world s0))
                       \<or> endswith n (if opt_pdf (opt s0) then ''.pdf'' else ''.dvi'')
                       \<or> \<not> isfile n (world s2)) (nodes (world s2))\<rparr>\<rparr>)"
    by simp
  have "run e s0 = run_finish e (snd (run_clean s2))"
    using assms(2,3) d by (simp add: run_def bind_def)
  with d show ?thesis by simp
qed

theorem run_clean_keeps_baseline_witness:
  "opt_clean (opt (ex_maker ex_clean_opts \<lparr>nodes = [(''main.tex'', File ''x'' 1), (''figs'', Dir)], clock = 2\<rparr>))
   \<and> map fst (nodes (world (snd (run (ex_env [] [])
        (ex_maker ex_clean_opts \<lparr>nodes = [(''main.tex'', File ''x'' 1), (''figs'', Dir)], clock = 2\<rparr>)))))
     = [''main.tex'', ''figs'', ''main.pdf'']"
proof -
  let ?e = "ex_env [] []"
  let ?s0 = "ex_maker ex_clean_opts \<lparr>nodes = [(''main.tex'', File ''x'' 1), (''figs'', Dir)], clock = 2\<rparr>"
  let ?s1 = "snd (run_build ?e ?s0)"
  let ?s2 = "snd (run_check_cite ?e ?s1)"
  have a: "opt_clean (opt ?s0)" by (simp add: ex_maker_def ex_clean_opts_def)
  have "fst (run_build ?e ?s0) = Inr ()" by code_simp
  then have b: "run_build ?e ?s0 = (Inr (), ?s1)" by (simp add: prod_eq_iff)
  have "fst (run_check_cite ?e ?s1) = Inr ()" by code_simp
  then have c: "run_check_cite ?e ?s1 = (Inr (), ?s2)" by (simp add: prod_eq_iff)
  have before: "map fst (nodes (world ?s2)) =
                  [''main.tex'', ''figs'', ''main.log'', ''main.aux'', ''main.pdf'']"
    by code_simp
  have after: "map fst (nodes (world (snd (run_finish ?e (snd (run_clean ?s2)))))) =
                  [''main.tex'', ''figs'', ''main.pdf'']"
    by code_simp
  from run_clean_keeps_baseline [OF a b c] after a
  show ?thesis by simp
qed

section \<open>The bibliography decision (C3)\<close>

lemma generate_citation_counter_bib_file:
  "generate_citation_counter e (s\<lparr>bib_file := b\<rparr>) = generate_citation_counter e s"
  by (simp add: generate_citation_counter_def Let_def split: sum.splits)

lemma filecmp_cmp_files:
  assumes "map_of (nodes w) f1 = Some (File c1 t1)" and "map_of (nodes w) f2 = Some (File c2 t2)"
  shows "filecmp_cmp f1 f2 w = Inr (\<not> (c2 \<noteq> c1 \<and> (length c2 \<noteq> length c1 \<or> t2 \<noteq> t1)))"
  using assms by (auto simp: filecmp_cmp_def)

text \<open>
  C3, as amended. The main auxiliary file names the bibliography (its first \<^verbatim>\<open>\bibdata\<close>
  match), the \<^verbatim>\<open>.bib\<close> file exists, the log holds neither notice and the citation counter
  equals the snapshot. Then \<^verbatim>\<open>_need_bib_run\<close> asks for a bibliography pass exactly when the
  saved copy \<^verbatim>\<open>.bib.old\<close> exists as a regular file and \<^verbatim>\<open>filecmp.cmp\<close> finds the two files
  different: their contents differ, and their sizes or their modification times differ. In
  particular a saved copy with the same content asks for no pass.
\<close>

theorem need_bib_run_saved_copy:
  assumes "read_file e (project_name s @ ''.aux'') (world s) = Inr content"
    and "re_search BIB_PATTERN content = Some m"
    and "map_of (nodes (world s)) (grp m 1 @ ''.bib'') = Some (File c1 t1)"
    and "re_search_str e (''No file '' @ project_name s @ ''.bbl.'') (out s) = Inr False"
    and "re_search CITATION_UNDEFINED_PATTERN (out s) = None"
    and "generate_citation_counter e s = Inr cite_counter"
    and "dict_eq (dict_eq (=)) old_cite_counter cite_counter"
  shows "need_bib_run e old_cite_counter s =
           (Inr (case map_of (nodes (world s)) (grp m 1 @ ''.bib.old'') of
                   Some (File c2 t2) \<Rightarrow> c2 \<noteq> c1 \<and> (length c2 \<noteq> length c1 \<or> t2 \<noteq> t1)
                 | _ \<Rightarrow> False),
            s\<lparr>bib_file := grp m 1\<rparr>)
       \<and> (map_of (nodes (world s)) (grp m 1 @ ''.bib.old'') = Some (File c1 t2) \<longrightarrow>
            need_bib_run e old_cite_counter s = (Inr False, s\<lparr>bib_file := grp m 1\<rparr>))"
proof -
  have bib: "isfile (grp m 1 @ ''.bib'') (world s)"
    using assms(3) by (simp add: isfile_def)
  have main: "need_bib_run e old_cite_counter s =
           (Inr (case map_of (nodes (world s)) (grp m 1 @ ''.bib.old'') of
                   Some (File c2 t2) \<Rightarrow> c2 \<noteq> c1 \<and> (length c2 \<noteq> length c1 \<or> t2 \<noteq> t1)
                 | _ \<Rightarrow> False),
            s\<lparr>bib_file := grp m 1\<rparr>)"
  proof (cases "map_of (nodes (world s)) (grp m 1 @ ''.bib.old'')")
    case None
    then have "\<not> isfile (grp m 1 @ ''.bib.old'') (world s)" by (simp add: isfile_def)
    with None assms bib show ?thesis
      by (simp add: need_bib_run_def Let_def ret_def generate_citation_counter_bib_file)
  next
    case (Some n)
    show ?thesis
    proof (cases n)
      case Dir
      with Some have "\<not> isfile (grp m 1 @ ''.bib.old'') (world s)" by (simp add: isfile_def)
      with Some Dir assms bib show ?thesis
        by (simp add: need_bib_run_def Let_def ret_def generate_citation_counter_bib_file)
    next
      case (File c2 t2)
      with Some have old: "map_of (nodes (world s)) (grp m 1 @ ''.bib.old'') = Some (File c2 t2)"
        by simp
      then have "isfile (grp m 1 @ ''.bib.old'') (world s)" by (simp add: isfile_def)
      with old assms bib filecmp_cmp_files [OF assms(3) old] show ?thesis
        by (simp add: need_bib_run_def Let_def ret_def generate_citation_counter_bib_file)
    qed
  qed
  then show ?thesis by simp
qed


theorem need_bib_run_saved_copy_witness:
  "need_bib_run (ex_env [] []) [(''main.aux'', [])]
       (ex_maker ex_opts (ex_bib_world ''@book{knuth, year=1997}'' 7 ''@book{knuth, year=1968}'' 5))
     = (Inr True,
        (ex_maker ex_opts (ex_bib_world ''@book{knuth, year=1997}'' 7 ''@book{knuth, year=1968}'' 5))
          \<lparr>bib_file := ''refs''\<rparr>)
   \<and> need_bib_run (ex_env [] []) [(''main.aux'', [])]
       (ex_maker ex_opts (ex_bib_world ''@book{knuth, year=1997}'' 7 ''@book{knuth, year=1997}'' 8))
     = (Inr False,
        (ex_maker ex_opts (ex_bib_world ''@book{knuth, year=1997}'' 7 ''@book{knuth, year=1997}'' 8))
          \<lparr>bib_file := ''refs''\<rparr>)"
proof -
  let ?e = "ex_env [] []"
  have m: "re_search BIB_PATTERN (BSL # ''bibdata{refs}'' @ [NL]) = Some [(1, ''refs'')]"
    by code_simp
  have g: "grp [(1, ''refs'')] 1 = ''refs''" by (simp add: grp_def)
  have u: "re_search CITATION_UNDEFINED_PATTERN [] = None" by code_simp
  have b: "re_search_str ?e (''No file '' @ ''main'' @ ''.bbl.'') [] = Inr False" by code_simp
  have facts: "read_file ?e (project_name (ex_maker ex_opts (ex_bib_world bib t1 saved t2)) @ ''.aux'')
             (world (ex_maker ex_opts (ex_bib_world bib t1 saved t2)))
           = Inr (BSL # ''bibdata{refs}'' @ [NL])"
     "map_of (nodes (world (ex_maker ex_opts (ex_bib_world bib t1 saved t2))))
             (grp [(1, ''refs'')] 1 @ ''.bib'') = Some (File bib t1)"
     "re_search_str ?e (''No file '' @ project_name (ex_maker ex_opts (ex_bib_world bib t1 saved t2))
             @ ''.bbl.'') (out (ex_maker ex_opts (ex_bib_world bib t1 saved t2))) = Inr False"
     "re_search CITATION_UNDEFINED_PATTERN (out (ex_maker ex_opts (ex_bib_world bib t1 saved t2))) = None"
     "map_of (nodes (world (ex_maker ex_opts (ex_bib_world bib t1 saved t2))))
             (grp [(1, ''refs'')] 1 @ ''.bib.old'') = Some (File saved t2)"
    for bib t1 saved t2
    using b u by (simp_all add: ex_maker_def ex_bib_world_def read_file_def grp_def ex_env_def)
  have cc: "generate_citation_counter ?e (ex_maker ex_opts (ex_bib_world bib t1 saved t2))
              = Inr [(''main.aux'', [])]" for bib t1 saved t2
    by (simp add: ex_maker_def ex_bib_world_def) code_simp
  have eq: "dict_eq (dict_eq (=)) [(''main.aux'', [])] [(''main.aux'', [])]"
    by (simp add: dict_eq_def)
  have inst: "need_bib_run ?e [(''main.aux'', [])] (ex_maker ex_opts (ex_bib_world bib t1 saved t2))
      = (Inr (saved \<noteq> bib \<and> (length saved \<noteq> length bib \<or> t2 \<noteq> t1)),
         (ex_maker ex_opts (ex_bib_world bib t1 saved t2))\<lparr>bib_file := ''refs''\<rparr>)"
    for bib t1 saved t2
    using need_bib_run_saved_copy [OF facts(1) [of bib t1 saved t2] m facts(2) [of bib t1 saved t2]
            facts(3) [of bib t1 saved t2] facts(4) [of bib t1 saved t2] cc [of bib t1 saved t2] eq]
          facts(5) [of bib t1 saved t2]
    by (simp add: grp_def)
  show ?thesis
    unfolding inst by simp
qed

text \<open>
  C3 as stated fails where it says "exactly when the content differs": \<^verbatim>\<open>filecmp.cmp\<close> is
  called with its default shallow comparison, which takes two files of the same size and the
  same modification time as equal without reading them. Here the saved copy exists and differs
  from the bibliography, and no bibliography pass is asked for.
\<close>

theorem need_bib_run_same_stamp_counterexample:
  "fst (need_bib_run (ex_env [] []) [(''main.aux'', [])]
         (ex_maker ex_opts (ex_bib_world ''@book{knuth, year=1997}'' 7 ''@book{knuth, year=1968}'' 7)))
     = Inr False
   \<and> isfile ''refs.bib.old'' (ex_bib_world ''@book{knuth, year=1997}'' 7 ''@book{knuth, year=1968}'' 7)
   \<and> read_file (ex_env [] []) ''refs.bib.old''
         (ex_bib_world ''@book{knuth, year=1997}'' 7 ''@book{knuth, year=1968}'' 7)
       \<noteq> read_file (ex_env [] []) ''refs.bib''
           (ex_bib_world ''@book{knuth, year=1997}'' 7 ''@book{knuth, year=1968}'' 7)"
  by code_simp

section \<open>Rebuilding glossaries (C5)\<close>

lemma make_gloss_refines:
  assumes "re_search_str e (''No file '' @ fname_in @ ''.'') (out s) = Inr missing"
  shows "make_gloss e gf gloss fname_in fname_out s =
           (case output_unreadable e gf gloss fname_out (world s) of
              Some err \<Rightarrow> Inl err
            | None \<Rightarrow> Inr (rebuild_needed e missing gf gloss fname_out (world s)))"
  using assms
  by (auto simp: make_gloss_def rebuild_needed_def output_unreadable_def
           split: option.splits sum.splits)

lemma makeindex_loop_append:
  "makeindex_loop e gf (pre @ rest) ch s =
     (case makeindex_loop e gf pre ch s of
        (Inl err, s1) \<Rightarrow> (Inl err, s1)
      | (Inr ch1, s1) \<Rightarrow> makeindex_loop e gf rest ch1 s1)"
proof (induction pre arbitrary: ch s)
  case Nil
  show ?case by (simp add: ret_def)
next
  case (Cons g pre)
  obtain gloss ext_i ext_o where g: "g = (gloss, ext_i, ext_o)" by (cases g) auto
  define fname_in where "fname_in = project_name s @ ''.'' @ ext_i"
  define fname_out where "fname_out = project_name s @ ''.'' @ ext_o"
  define s1 where "s1 = log_msg Info (''Running makeindex ('' @ gloss @ '')...'') s"
  note unf = makeindex_loop.simps(2) [of e gf gloss ext_i ext_o _ ch s,
      unfolded Let_def, folded fname_in_def fname_out_def s1_def, folded g]
  show ?case
  proof (cases "make_gloss e gf gloss fname_in fname_out s")
    case (Inl err)
    then show ?thesis by (simp add: unf raise_def)
  next
    case mk: (Inr make)
    show ?thesis
    proof (cases make)
      case False
      with mk show ?thesis by (simp add: unf Cons)
    next
      case True
      show ?thesis
      proof (cases "Popen e (makeindex_cmdline s1 fname_in fname_out) s1")
        case (Inl msg)
        with mk True show ?thesis by (simp add: unf fatal_error_def raise_def)
      next
        case (Inr s2)
        with mk True show ?thesis by (simp add: unf Cons)
      qed
    qed
  qed
qed

lemma makeindex_loop_trace:
  "makeindex_loop e gf gs ch s = (r, s') \<Longrightarrow>
     (\<exists>more. trace s' = trace s @ more) \<and>
     (\<forall>b. r = Inr b \<longrightarrow> (b \<longleftrightarrow> ch \<or> index_runs (trace s) < index_runs (trace s')))"
proof (induction gs arbitrary: ch s)
  case Nil
  then show ?case by (auto simp: ret_def)
next
  case (Cons g gs)
  obtain gloss ext_i ext_o where g: "g = (gloss, ext_i, ext_o)" by (cases g) auto
  define fname_in where "fname_in = project_name s @ ''.'' @ ext_i"
  define fname_out where "fname_out = project_name s @ ''.'' @ ext_o"
  define s1 where "s1 = log_msg Info (''Running makeindex ('' @ gloss @ '')...'') s"
  note unf = makeindex_loop.simps(2) [of e gf gloss ext_i ext_o gs ch s,
      unfolded Let_def, folded fname_in_def fname_out_def s1_def, folded g]
  show ?case
  proof (cases "make_gloss e gf gloss fname_in fname_out s")
    case (Inl err)
    with Cons.prems unf show ?thesis by (auto simp: raise_def)
  next
    case mk: (Inr make)
    show ?thesis
    proof (cases make)
      case False
      with Cons.prems unf mk have "makeindex_loop e gf gs ch s = (r, s')" by simp
      then show ?thesis by (rule Cons.IH)
    next
      case True
      show ?thesis
      proof (cases "Popen e (makeindex_cmdline s1 fname_in fname_out) s1")
        case (Inl msg)
        with Cons.prems unf mk True
        have "r = Inl (LatexMkError (NO_LATEX_ERROR ''makeindex''))"
          and "s' = log_msg Error (NO_LATEX_ERROR ''makeindex'') s1"
          by (simp_all add: fatal_error_def raise_def)
        then show ?thesis by (simp add: log_msg_def s1_def)
      next
        case (Inr s2)
        then have t2: "trace s2 = trace s @ [Log Info (''Running makeindex ('' @ gloss @ '')...''),
                                            Exec (makeindex_cmdline s1 fname_in fname_out)]"
          by (auto simp: Popen_def s1_def log_msg_def split: sum.splits)
        then have i2: "index_runs (trace s2) = Suc (index_runs (trace s))"
          by (simp add: index_runs_def makeindex_cmdline_def)
        from Cons.prems unf mk True Inr
        have "makeindex_loop e gf gs True s2 = (r, s')" by simp
        from Cons.IH [OF this] obtain more where
          m: "trace s' = trace s2 @ more"
          and f: "\<And>b. r = Inr b \<Longrightarrow> (b \<longleftrightarrow> True \<or> index_runs (trace s2) < index_runs (trace s'))"
          by blast
        have "index_runs (trace s2) \<le> index_runs (trace s')"
          unfolding m by (simp add: index_runs_def)
        with i2 have "index_runs (trace s) < index_runs (trace s')" by simp
        with m t2 f show ?thesis by auto
      qed
    qed
  qed
qed


text \<open>
  C5. The loop of \<^verbatim>\<open>makeindex_runs\<close> has reached a registered glossary (in the state the
  glossaries before it left) and the search of the log for the notice of its missing input file
  has returned. Then the glossary is rebuilt exactly when the log reports the input file
  missing, or the output file does not exist, or the snapshot holds no content for the glossary
  or one that differs from the output file's; the one other outcome is the error of reading an
  output file that is to be compared with the snapshot and is no text, which leaves the loop.
  Rebuilding is running the index tool with the glossary's command line (a tool that cannot be
  started raises \<^verbatim>\<open>LatexMkError\<close>), and the loop goes on with the flag set. A call that
  returns gives true exactly when it ran the index tool at least once; in particular, when the
  glossary's output file does not exist, a call that returns has run the tool for this glossary
  and returns true.
\<close>

theorem makeindex_runs_rebuilds:
  assumes reg: "glossaries s = pre @ (gloss, ext_i, ext_o) # post"
    and reach: "makeindex_loop e gf pre False s = (Inr ch, s1)"
    and fin: "fname_in = project_name s1 @ ''.'' @ ext_i"
    and fout: "fname_out = project_name s1 @ ''.'' @ ext_o"
    and log: "re_search_str e (''No file '' @ fname_in @ ''.'') (out s1) = Inr missing"
    and s1': "s1' = log_msg Info (''Running makeindex ('' @ gloss @ '')...'') s1"
  shows "make_gloss e gf gloss fname_in fname_out s1
           = (case output_unreadable e gf gloss fname_out (world s1) of
                Some err \<Rightarrow> Inl err
              | None \<Rightarrow> Inr (rebuild_needed e missing gf gloss fname_out (world s1)))
       \<and> makeindex_runs e gf s =
           (case output_unreadable e gf gloss fname_out (world s1) of
              Some err \<Rightarrow> (Inl err, s1)
            | None \<Rightarrow>
               if rebuild_needed e missing gf gloss fname_out (world s1)
               then (case popen e (makeindex_cmdline s1 fname_in fname_out) (world s1) of
                       Inl _ \<Rightarrow> (Inl (LatexMkError (NO_LATEX_ERROR ''makeindex'')),
                                 log_msg Error (NO_LATEX_ERROR ''makeindex'') s1')
                     | Inr w \<Rightarrow>
                         makeindex_loop e gf post True
                           (s1'\<lparr>world := w,
                                trace := trace s1' @ [Exec (makeindex_cmdline s1 fname_in fname_out)]\<rparr>))
               else makeindex_loop e gf post ch s1)
       \<and> (\<forall>b s'. makeindex_runs e gf s = (Inr b, s') \<longrightarrow>
              (b \<longleftrightarrow> index_runs (trace s) < index_runs (trace s')))
       \<and> (\<not> isfile fname_out (world s1) \<longrightarrow>
            (\<forall>b s'. makeindex_runs e gf s = (Inr b, s') \<longrightarrow>
               b \<and> Exec (makeindex_cmdline s1 fname_in fname_out) \<in> set (trace s')))"
proof -
  have mk: "make_gloss e gf gloss fname_in fname_out s1
              = (case output_unreadable e gf gloss fname_out (world s1) of
                   Some err \<Rightarrow> Inl err
                 | None \<Rightarrow> Inr (rebuild_needed e missing gf gloss fname_out (world s1)))"
    using log by (rule make_gloss_refines)
  have step: "makeindex_runs e gf s = makeindex_loop e gf ((gloss, ext_i, ext_o) # post) ch s1"
    unfolding makeindex_runs_def reg makeindex_loop_append reach by simp
  note unf = makeindex_loop.simps(2) [of e gf gloss ext_i ext_o post ch s1,
      unfolded Let_def, folded fin fout s1', unfolded mk]
  have cmd: "makeindex_cmdline s1' fname_in fname_out = makeindex_cmdline s1 fname_in fname_out"
    by (simp add: makeindex_cmdline_def s1' log_msg_def)
  have w: "world s1' = world s1" by (simp add: s1' log_msg_def)
  have runs: "makeindex_runs e gf s =
           (case output_unreadable e gf gloss fname_out (world s1) of
              Some err \<Rightarrow> (Inl err, s1)
            | None \<Rightarrow>
               if rebuild_needed e missing gf gloss fname_out (world s1)
               then (case popen e (makeindex_cmdline s1 fname_in fname_out) (world s1) of
                       Inl _ \<Rightarrow> (Inl (LatexMkError (NO_LATEX_ERROR ''makeindex'')),
                                 log_msg Error (NO_LATEX_ERROR ''makeindex'') s1')
                     | Inr w \<Rightarrow>
                         makeindex_loop e gf post True
                           (s1'\<lparr>world := w,
                                trace := trace s1' @ [Exec (makeindex_cmdline s1 fname_in fname_out)]\<rparr>))
               else makeindex_loop e gf post ch s1)"
  proof (cases "output_unreadable e gf gloss fname_out (world s1)")
    case (Some err)
    then show ?thesis unfolding step unf by (simp add: raise_def)
  next
    case None
    then show ?thesis unfolding step unf
      by (simp add: Popen_def cmd w fatal_error_def raise_def split: sum.splits)
  qed
  have flag: "b \<longleftrightarrow> index_runs (trace s) < index_runs (trace s')"
    if "makeindex_runs e gf s = (Inr b, s')" for b s'
    using makeindex_loop_trace [OF that [unfolded makeindex_runs_def]] by simp
  have absent: "b \<and> Exec (makeindex_cmdline s1 fname_in fname_out) \<in> set (trace s')"
    if nf: "\<not> isfile fname_out (world s1)" and r: "makeindex_runs e gf s = (Inr b, s')" for b s'
  proof -
    from nf have need: "rebuild_needed e missing gf gloss fname_out (world s1)"
      by (simp add: rebuild_needed_def)
    from nf have rd: "output_unreadable e gf gloss fname_out (world s1) = None"
      by (simp add: output_unreadable_def)
    show ?thesis
    proof (cases "popen e (makeindex_cmdline s1 fname_in fname_out) (world s1)")
      case (Inl msg)
      with r runs need rd show ?thesis by simp
    next
      case (Inr w)
      define s2 where "s2 = s1'\<lparr>world := w,
                             trace := trace s1' @ [Exec (makeindex_cmdline s1 fname_in fname_out)]\<rparr>"
      from r runs need rd Inr have "makeindex_loop e gf post True s2 = (Inr b, s')"
        by (simp add: s2_def)
      from makeindex_loop_trace [OF this] show ?thesis
        by (auto simp: s2_def)
    qed
  qed
  from mk runs flag absent show ?thesis by blast
qed

theorem makeindex_runs_rebuilds_witness:
  "\<not> isfile ''main.gls'' (world ex_gloss_maker)
   \<and> fst (makeindex_runs (ex_env [] []) Map.empty ex_gloss_maker) = Inr True
   \<and> Exec [''makeindex'', ''-q'', ''-s'', ''main.ist'', ''-o'', ''main.glo'', ''main.gls'']
        \<in> set (trace (snd (makeindex_runs (ex_env [] []) Map.empty ex_gloss_maker)))"
proof -
  let ?e = "ex_env [] []"
  let ?s = ex_gloss_maker
  have reg: "glossaries ?s = [] @ (''main'', ''glo'', ''gls'') # []"
    by (simp add: ex_gloss_maker_def)
  have reach: "makeindex_loop ?e Map.empty [] False ?s = (Inr False, ?s)"
    by (simp add: ret_def)
  have log: "re_search_str ?e (''No file '' @ (project_name ?s @ ''.'' @ ''glo'') @ ''.'') (out ?s)
               = Inr False"
    by code_simp
  have nf: "\<not> isfile (project_name ?s @ ''.'' @ ''gls'') (world ?s)" by code_simp
  have ok: "fst (makeindex_runs ?e Map.empty ?s) = Inr True" by code_simp
  then have r: "makeindex_runs ?e Map.empty ?s = (Inr True, snd (makeindex_runs ?e Map.empty ?s))"
    by (simp add: prod_eq_iff)
  have cmd: "makeindex_cmdline ?s (project_name ?s @ ''.'' @ ''glo'') (project_name ?s @ ''.'' @ ''gls'')
               = [''makeindex'', ''-q'', ''-s'', ''main.ist'', ''-o'', ''main.glo'', ''main.gls'']"
    by (simp add: makeindex_cmdline_def ex_gloss_maker_def ex_maker_def)
  have pn: "project_name ?s @ ''.'' @ ''gls'' = ''main.gls''"
    by (simp add: ex_gloss_maker_def ex_maker_def)
  from makeindex_runs_rebuilds [OF reg reach refl refl log refl] nf r
  have "Exec (makeindex_cmdline ?s (project_name ?s @ ''.'' @ ''glo'') (project_name ?s @ ''.'' @ ''gls''))
          \<in> set (trace (snd (makeindex_runs ?e Map.empty ?s)))"
    by blast
  with nf ok show ?thesis
    by (simp add: makeindex_cmdline_def ex_gloss_maker_def ex_maker_def)
qed

section \<open>The aggregate citation counter (C8)\<close>









section \<open>Fatal conditions (C7)\<close>

lemma latex_run_no_compiler:
  assumes "popen e (latex_cmdline s) (world s) = Inl msg"
  shows "latex_run e s =
           (Inl (LatexMkError (NO_LATEX_ERROR (latex_cmd s))),
            log_msg Error (NO_LATEX_ERROR (latex_cmd s))
              (log_msg Info (''Running '' @ latex_cmd s @ ''...'') s))"
proof -
  define s1 where "s1 = log_msg Info (''Running '' @ latex_cmd s @ ''...'') s"
  have "Popen e (latex_cmdline s1) s1 = Inl msg"
    using assms by (simp add: Popen_def s1_def log_msg_def latex_cmdline_def)
  moreover have "latex_cmd s1 = latex_cmd s" by (simp add: s1_def log_msg_def)
  ultimately show ?thesis
    unfolding latex_run_def Let_def s1_def [symmetric]
    by (simp add: fatal_error_def raise_def)
qed

lemma bibtex_run_no_bibtex:
  assumes "popen e [''bibtex'', project_name s] (world s) = Inl msg"
  shows "bibtex_run e s =
           (Inl (LatexMkError (NO_LATEX_ERROR ''bibtex'')),
            log_msg Error (NO_LATEX_ERROR ''bibtex'') (log_msg Info ''Running bibtex...'' s))"
proof -
  define s1 where "s1 = log_msg Info ''Running bibtex...'' s"
  have "Popen e [''bibtex'', project_name s1] s1 = Inl msg"
    using assms by (simp add: Popen_def s1_def log_msg_def)
  then show ?thesis
    unfolding bibtex_run_def Let_def s1_def [symmetric]
    by (simp add: fatal_error_def raise_def)
qed

lemma makeindex_no_makeindex:
  assumes "make_gloss e gf gloss (project_name s @ ''.'' @ ext_i) (project_name s @ ''.'' @ ext_o) s
             = Inr True"
    and "popen e (makeindex_cmdline s (project_name s @ ''.'' @ ext_i) (project_name s @ ''.'' @ ext_o))
           (world s) = Inl msg"
  shows "makeindex_loop e gf ((gloss, ext_i, ext_o) # rest) ch s =
           (Inl (LatexMkError (NO_LATEX_ERROR ''makeindex'')),
            log_msg Error (NO_LATEX_ERROR ''makeindex'')
              (log_msg Info (''Running makeindex ('' @ gloss @ '')...'') s))"
proof -
  define s1 where "s1 = log_msg Info (''Running makeindex ('' @ gloss @ '')...'') s"
  define fname_in where "fname_in = project_name s @ ''.'' @ ext_i"
  define fname_out where "fname_out = project_name s @ ''.'' @ ext_o"
  note unf = makeindex_loop.simps(2) [of e gf gloss ext_i ext_o rest ch s,
      unfolded Let_def, folded fname_in_def fname_out_def s1_def]
  have "Popen e (makeindex_cmdline s1 fname_in fname_out) s1 = Inl msg"
    using assms(2)
    by (simp add: Popen_def s1_def log_msg_def makeindex_cmdline_def fname_in_def fname_out_def)
  with assms(1) show ?thesis
    unfolding unf by (simp add: fname_in_def fname_out_def fatal_error_def raise_def s1_def)
qed

lemma init_texlipse_missing:
  assumes "\<not> isfile ''.texlipse'' (world p)" and "\<not> isfile ''.texlipse'' (sleep e (world p))"
  shows "LatexMaker_init e ''.texlipse'' opts p =
           (Inl (LatexMkError ''! Fatal error: File .texlipse is missing.''),
            log_msg Error ''! Fatal error: File .texlipse is missing.''
              (p\<lparr>world := sleep e (world p)\<rparr>))"
  using assms
  by (simp add: LatexMaker_init_def parse_texlipse_config_def Let_def fatal_error_def raise_def)

lemma init_texlipse_unparsable:
  assumes "read_file e ''.texlipse'' (world p) = Inr content"
    and "re_search TEXLIPSE_MAIN_PATTERN content = None"
  shows "LatexMaker_init e ''.texlipse'' opts p =
           (Inl (LatexMkError ''! Fatal error: Parsing .texlipse failed.''),
            log_msg Error ''! Fatal error: Parsing .texlipse failed.'' p)"
proof -
  from assms(1) have "isfile ''.texlipse'' (world p)" by (rule read_file_isfile)
  with assms show ?thesis
    by (simp add: LatexMaker_init_def parse_texlipse_config_def Let_def fatal_error_def raise_def)
qed

lemma check_errors_cases:
  "check_errors s =
     (if re_findall ERROR_PATTTERN 3 (out s) = [] then (Inr (), s)
      else (if opt_exit_on_error (opt s)
            then Inl (LatexMkError (error_lines s @ [NL] @ see_log s))
            else Inr (),
            s\<lparr>trace := trace s @ [Log Error ''! Errors occurred:'', Log Error (error_lines s),
                                   Log Error (''! '' @ see_log s)]\<rparr>))"
  by (simp add: check_errors_def Let_def ret_def raise_def error_lines_def see_log_def log_msg_def)

lemma main_no_tex_file:
  assumes "filter (\<lambda>n. endswith n ''.tex'') (listdir (world p)) = []"
  shows "main e [] None opts p =
           (Inl (SystemExit 2),
            p\<lparr>trace := trace p @ [Stderr ''could not find one *.tex file in current directory'']\<rparr>)"
  using assms
  by (simp add: main_def resolve_filename_def parser_error_def bind_def raise_def ret_def)

lemma main_many_tex_files:
  assumes "1 < length (filter (\<lambda>n. endswith n ''.tex'') (listdir (world p)))"
  shows "main e [] None opts p =
           (Inl (SystemExit 2),
            p\<lparr>trace := trace p @
                 [Stderr ''multiple *.tex files in current directory, specify only one'']\<rparr>)"
proof -
  from assms obtain a b rest
    where "filter (\<lambda>n. endswith n ''.tex'') (listdir (world p)) = a # b # rest"
    by (cases "filter (\<lambda>n. endswith n ''.tex'') (listdir (world p))" rule: list.exhaust;
        simp; metis list.exhaust list.size(3) not_less_zero)
  then show ?thesis
    by (simp add: main_def resolve_filename_def parser_error_def bind_def raise_def ret_def)
qed

lemma main_unrecognized:
  assumes "rest \<noteq> []"
  shows "main e rest filename opts p =
           (Inl (SystemExit 2),
            p\<lparr>trace := trace p @
                 [Stderr (''unrecognized arguments: ''
                          @ join '' '' (map (\<lambda>r. [DQ] @ r @ [DQ]) rest)
                          @ ''. Specify at most one filename'')]\<rparr>)"
  using assms by (simp add: main_def parser_error_def bind_def raise_def)

text \<open>
  C7, as amended. Inside \<^verbatim>\<open>LatexMaker\<close> a fatal condition raises \<^verbatim>\<open>LatexMkError\<close>. A
  compiler, \<^verbatim>\<open>bibtex\<close> or \<^verbatim>\<open>makeindex\<close> that cannot be started, and a \<^verbatim>\<open>.texlipse\<close> file
  that is missing (also after the wait) or has no \<^verbatim>\<open>mainTexFile\<close> line, log their message as
  an error and raise it. Errors found in the compiler log are logged as three error records (a
  heading, the error lines, and a pointer to the log file); they raise \<^verbatim>\<open>LatexMkError\<close>,
  with the error lines and the pointer as its message, exactly when \<^verbatim>\<open>exit_on_error\<close> is
  set, and otherwise \<^verbatim>\<open>check_errors\<close> returns normally; a log without errors changes
  nothing. \<^verbatim>\<open>main\<close> turns a \<^verbatim>\<open>LatexMkError\<close> of the construction or the run into the log
  record \<^verbatim>\<open>! Exiting...\<close> and \<^verbatim>\<open>sys.exit(1)\<close>, and lets every other outcome through as it
  is. With no file name given, a working directory with no \<^verbatim>\<open>.tex\<close> file or with several
  of them ends in \<^verbatim>\<open>parser.error\<close>, and so do arguments that are not recognised: status 2
  and the parser's message on the standard error stream, no \<^verbatim>\<open>LatexMkError\<close> and no
  \<^verbatim>\<open>! Exiting...\<close> record.
\<close>

theorem fatal_conditions:
  "(popen e (latex_cmdline s) (world s) = Inl msg \<longrightarrow>
      latex_run e s =
        (Inl (LatexMkError (NO_LATEX_ERROR (latex_cmd s))),
         log_msg Error (NO_LATEX_ERROR (latex_cmd s))
           (log_msg Info (''Running '' @ latex_cmd s @ ''...'') s)))
 \<and> (popen e [''bibtex'', project_name s] (world s) = Inl msg \<longrightarrow>
      bibtex_run e s =
        (Inl (LatexMkError (NO_LATEX_ERROR ''bibtex'')),
         log_msg Error (NO_LATEX_ERROR ''bibtex'') (log_msg Info ''Running bibtex...'' s)))
 \<and> (make_gloss e gf gloss (project_name s @ ''.'' @ ext_i) (project_name s @ ''.'' @ ext_o) s
        = Inr True
      \<and> popen e (makeindex_cmdline s (project_name s @ ''.'' @ ext_i)
                                     (project_name s @ ''.'' @ ext_o)) (world s) = Inl msg \<longrightarrow>
      makeindex_loop e gf ((gloss, ext_i, ext_o) # others) ch s =
        (Inl (LatexMkError (NO_LATEX_ERROR ''makeindex'')),
         log_msg Error (NO_LATEX_ERROR ''makeindex'')
           (log_msg Info (''Running makeindex ('' @ gloss @ '')...'') s)))
 \<and> (\<not> isfile ''.texlipse'' (world p) \<and> \<not> isfile ''.texlipse'' (sleep e (world p)) \<longrightarrow>
      LatexMaker_init e ''.texlipse'' opts p =
        (Inl (LatexMkError ''! Fatal error: File .texlipse is missing.''),
         log_msg Error ''! Fatal error: File .texlipse is missing.''
           (p\<lparr>world := sleep e (world p)\<rparr>)))
 \<and> (read_file e ''.texlipse'' (world p) = Inr content
      \<and> re_search TEXLIPSE_MAIN_PATTERN content = None \<longrightarrow>
      LatexMaker_init e ''.texlipse'' opts p =
        (Inl (LatexMkError ''! Fatal error: Parsing .texlipse failed.''),
         log_msg Error ''! Fatal error: Parsing .texlipse failed.'' p))
 \<and> check_errors s =
      (if re_findall ERROR_PATTTERN 3 (out s) = [] then (Inr (), s)
       else (if opt_exit_on_error (opt s)
             then Inl (LatexMkError (error_lines s @ [NL] @ see_log s))
             else Inr (),
             s\<lparr>trace := trace s @ [Log Error ''! Errors occurred:'', Log Error (error_lines s),
                                    Log Error (''! '' @ see_log s)]\<rparr>))
 \<and> (construct_and_run e f opts (log_msg Debug (''arguments: '' @ str_args e f opts) p) = (r, p')
      \<and> (opt_notify opts \<longrightarrow> notify2_loaded e) \<longrightarrow>
      main e [] (Some f) opts p =
        (if is_LatexMkError r then (Inl (SystemExit 1), log_msg Error ''! Exiting...'' p')
         else (r, p')))
 \<and> (filter (\<lambda>n. endswith n ''.tex'') (listdir (world p)) = [] \<longrightarrow>
      main e [] None opts p =
        (Inl (SystemExit 2),
         p\<lparr>trace := trace p @
              [Stderr ''could not find one *.tex file in current directory'']\<rparr>))
 \<and> (1 < length (filter (\<lambda>n. endswith n ''.tex'') (listdir (world p))) \<longrightarrow>
      main e [] None opts p =
        (Inl (SystemExit 2),
         p\<lparr>trace := trace p @
              [Stderr ''multiple *.tex files in current directory, specify only one'']\<rparr>))
 \<and> (rest \<noteq> [] \<longrightarrow>
      main e rest filename opts p =
        (Inl (SystemExit 2),
         p\<lparr>trace := trace p @
              [Stderr (''unrecognized arguments: ''
                       @ join '' '' (map (\<lambda>r. [DQ] @ r @ [DQ]) rest)
                       @ ''. Specify at most one filename'')]\<rparr>))"
  using latex_run_no_compiler [of e s msg] bibtex_run_no_bibtex [of e s msg]
    makeindex_no_makeindex [of e gf gloss s ext_i ext_o msg others ch]
    init_texlipse_missing [of p e opts] init_texlipse_unparsable [of e p content opts]
    check_errors_cases [of s] main_given_file [of e f opts p r p'] main_no_tex_file [of p e opts]
    main_many_tex_files [of p e opts] main_unrecognized [of rest e filename opts p]
  by blast

theorem fatal_conditions_witness:
  "fst (latex_run ex_no_tools_env ex_gloss_maker)
     = Inl (LatexMkError (NO_LATEX_ERROR (latex_cmd ex_gloss_maker)))
   \<and> fst (bibtex_run ex_no_tools_env ex_gloss_maker) = Inl (LatexMkError (NO_LATEX_ERROR ''bibtex''))
   \<and> fst (makeindex_loop ex_no_tools_env Map.empty [(''main'', ''glo'', ''gls'')] False ex_gloss_maker)
       = Inl (LatexMkError (NO_LATEX_ERROR ''makeindex''))
   \<and> fst (LatexMaker_init ex_no_tools_env ''.texlipse'' ex_opts
            \<lparr>world = \<lparr>nodes = [], clock = 0\<rparr>, trace = []\<rparr>)
       = Inl (LatexMkError ''! Fatal error: File .texlipse is missing.'')
   \<and> fst (LatexMaker_init (ex_env [] []) ''.texlipse'' ex_opts
            \<lparr>world = \<lparr>nodes = [(''.texlipse'', File ''builderNum=2'' 1), (''a.tex'', File ''x'' 1),
                               (''b.tex'', File ''y'' 1)], clock = 2\<rparr>, trace = []\<rparr>)
       = Inl (LatexMkError ''! Fatal error: Parsing .texlipse failed.'')
   \<and> check_errors ((ex_maker ex_opts \<lparr>nodes = [], clock = 0\<rparr>)\<lparr>out := ''! Emergency stop.''\<rparr>)
       = (Inl (LatexMkError (''Emergency stop.'' @ [NL] @ ''See '' @ [DQ] @ ''main.log'' @ [DQ]
                              @ '' for details.'')),
          (ex_maker ex_opts \<lparr>nodes = [], clock = 0\<rparr>)
            \<lparr>out := ''! Emergency stop.'',
             trace := [Log Error ''! Errors occurred:'', Log Error ''Emergency stop.'',
                       Log Error (''! See '' @ [DQ] @ ''main.log'' @ [DQ] @ '' for details.'')]\<rparr>)
   \<and> fst (check_errors
         ((ex_maker (ex_opts\<lparr>opt_exit_on_error := False\<rparr>) \<lparr>nodes = [], clock = 0\<rparr>)
            \<lparr>out := ''! Emergency stop.''\<rparr>)) = Inr ()
   \<and> check_errors ex_gloss_maker = (Inr (), ex_gloss_maker)
   \<and> fst (main ex_no_tools_env [] (Some ''main.tex'') ex_opts
            \<lparr>world = \<lparr>nodes = [(''main.tex'', File ''x'' 1)], clock = 2\<rparr>, trace = []\<rparr>)
       = Inl (SystemExit 1)
   \<and> fst (main (ex_env [] []) [] (Some ''main.tex'') ex_opts
            \<lparr>world = \<lparr>nodes = [(''main.tex'', File ''x'' 1)], clock = 2\<rparr>, trace = []\<rparr>)
       = Inr ()
   \<and> fst (main ex_no_tools_env [] None ex_opts \<lparr>world = \<lparr>nodes = [], clock = 0\<rparr>, trace = []\<rparr>)
       = Inl (SystemExit 2)
   \<and> fst (main (ex_env [] []) [] None ex_opts
            \<lparr>world = \<lparr>nodes = [(''.texlipse'', File ''builderNum=2'' 1), (''a.tex'', File ''x'' 1),
                               (''b.tex'', File ''y'' 1)], clock = 2\<rparr>, trace = []\<rparr>)
       = Inl (SystemExit 2)
   \<and> fst (main (ex_env [] []) [''b.tex''] (Some ''a.tex'') ex_opts
            \<lparr>world = \<lparr>nodes = [], clock = 0\<rparr>, trace = []\<rparr>)
       = Inl (SystemExit 2)"
proof -
  let ?n = "ex_no_tools_env"
  let ?e = "ex_env [] []"
  let ?g = "ex_gloss_maker"
  let ?p0 = "\<lparr>world = \<lparr>nodes = [], clock = 0\<rparr>, trace = []\<rparr>"
  let ?p1 = "\<lparr>world = \<lparr>nodes = [(''main.tex'', File ''x'' 1)], clock = 2\<rparr>, trace = []\<rparr>"
  let ?p2 = "\<lparr>world = \<lparr>nodes = [(''.texlipse'', File ''builderNum=2'' 1), (''a.tex'', File ''x'' 1),
                               (''b.tex'', File ''y'' 1)], clock = 2\<rparr>, trace = []\<rparr>"
  let ?s1 = "(ex_maker ex_opts \<lparr>nodes = [], clock = 0\<rparr>)\<lparr>out := ''! Emergency stop.''\<rparr>"
  let ?s2 = "(ex_maker (ex_opts\<lparr>opt_exit_on_error := False\<rparr>) \<lparr>nodes = [], clock = 0\<rparr>)
               \<lparr>out := ''! Emergency stop.''\<rparr>"
  let ?m = "''No such file or directory''"
  let ?d1 = "log_msg Debug (''arguments: '' @ str_args ?n ''main.tex'' ex_opts) ?p1"
  let ?d2 = "log_msg Debug (''arguments: '' @ str_args ?e ''main.tex'' ex_opts) ?p1"
  have h1: "popen ?n (latex_cmdline ?g) (world ?g) = Inl ?m"
    by (simp add: ex_no_tools_env_def)
  have h2: "popen ?n [''bibtex'', project_name ?g] (world ?g) = Inl ?m"
    by (simp add: ex_no_tools_env_def)
  have h3: "make_gloss ?n Map.empty ''main'' (project_name ?g @ ''.'' @ ''glo'')
              (project_name ?g @ ''.'' @ ''gls'') ?g = Inr True"
    by code_simp
  have h3': "popen ?n (makeindex_cmdline ?g (project_name ?g @ ''.'' @ ''glo'')
               (project_name ?g @ ''.'' @ ''gls'')) (world ?g) = Inl ?m"
    by (simp add: ex_no_tools_env_def)
  have h4: "\<not> isfile ''.texlipse'' (world ?p0)" "\<not> isfile ''.texlipse'' (sleep ?n (world ?p0))"
    by (simp_all add: isfile_def ex_no_tools_env_def ex_env_def)
  have h5: "read_file ?e ''.texlipse'' (world ?p2) = Inr ''builderNum=2''" by code_simp
  have h5': "re_search TEXLIPSE_MAIN_PATTERN ''builderNum=2'' = None" by code_simp
  have h6: "re_findall ERROR_PATTTERN 3 (out ?s1) \<noteq> []" by code_simp
  have h6': "re_findall ERROR_PATTTERN 3 (out ?s2) \<noteq> []" by code_simp
  have l1: "error_lines ?s1 = ''Emergency stop.''" by code_simp
  have l2: "see_log ?s1 = ''See '' @ [DQ] @ ''main.log'' @ [DQ] @ '' for details.''"
    by (simp add: see_log_def ex_maker_def)
  have f1: "opt_exit_on_error (opt ?s1)" "trace ?s1 = []"
    by (simp_all add: ex_maker_def ex_opts_def)
  have f2: "\<not> opt_exit_on_error (opt ?s2)" by (simp add: ex_maker_def ex_opts_def)
  have h7: "re_findall ERROR_PATTTERN 3 (out ?g) = []" by code_simp
  have n: "opt_notify ex_opts \<longrightarrow> notify2_loaded ?n" "opt_notify ex_opts \<longrightarrow> notify2_loaded ?e"
    by (simp_all add: ex_opts_def)
  have h8: "is_LatexMkError (fst (construct_and_run ?n ''main.tex'' ex_opts ?d1))" by code_simp
  have h8': "fst (construct_and_run ?e ''main.tex'' ex_opts ?d2) = Inr ()" by code_simp
  have h9: "filter (\<lambda>n. endswith n ''.tex'') (listdir (world ?p0)) = []" by code_simp
  have h10: "1 < length (filter (\<lambda>n. endswith n ''.tex'') (listdir (world ?p2)))" by code_simp
  note a = fatal_conditions [where e = ?n and s = ?g and msg = ?m and gf = Map.empty
      and gloss = "''main''" and ext_i = "''glo''" and ext_o = "''gls''" and others = "[]"
      and ch = False and p = ?p0 and opts = ex_opts]
  note b = fatal_conditions [where e = ?e and s = ?s1 and p = ?p2 and opts = ex_opts
      and content = "''builderNum=2''"]
  note c = fatal_conditions [where s = ?s2]
  note d = fatal_conditions [where e = ?n and f = "''main.tex''" and opts = ex_opts and p = ?p1
      and r = "fst (construct_and_run ?n ''main.tex'' ex_opts ?d1)"
      and p' = "snd (construct_and_run ?n ''main.tex'' ex_opts ?d1)"]
  note d' = fatal_conditions [where e = ?e and f = "''main.tex''" and opts = ex_opts and p = ?p1
      and r = "fst (construct_and_run ?e ''main.tex'' ex_opts ?d2)"
      and p' = "snd (construct_and_run ?e ''main.tex'' ex_opts ?d2)"]
  note u = fatal_conditions [where e = ?e and rest = "[''b.tex'']" and filename = "Some ''a.tex''"
      and opts = ex_opts and p = ?p0]
  have c1: "fst (latex_run ?n ?g) = Inl (LatexMkError (NO_LATEX_ERROR (latex_cmd ?g)))"
    using a h1 by simp
  have c2: "fst (bibtex_run ?n ?g) = Inl (LatexMkError (NO_LATEX_ERROR ''bibtex''))"
    using a h2 by simp
  have c3: "fst (makeindex_loop ?n Map.empty [(''main'', ''glo'', ''gls'')] False ?g)
              = Inl (LatexMkError (NO_LATEX_ERROR ''makeindex''))"
    using a h3 h3' by simp
  have c4: "fst (LatexMaker_init ?n ''.texlipse'' ex_opts ?p0)
              = Inl (LatexMkError ''! Fatal error: File .texlipse is missing.'')"
    using a h4 by simp
  have c5: "fst (LatexMaker_init ?e ''.texlipse'' ex_opts ?p2)
              = Inl (LatexMkError ''! Fatal error: Parsing .texlipse failed.'')"
    using b h5 h5' by simp
  have "check_errors ?s1
          = (Inl (LatexMkError (error_lines ?s1 @ [NL] @ see_log ?s1)),
             ?s1\<lparr>trace := trace ?s1 @ [Log Error ''! Errors occurred:'', Log Error (error_lines ?s1),
                                       Log Error (''! '' @ see_log ?s1)]\<rparr>)"
    using b h6 f1(1) by simp
  then have c6: "check_errors ?s1
       = (Inl (LatexMkError (''Emergency stop.'' @ [NL] @ ''See '' @ [DQ] @ ''main.log'' @ [DQ]
                              @ '' for details.'')),
          (ex_maker ex_opts \<lparr>nodes = [], clock = 0\<rparr>)
            \<lparr>out := ''! Emergency stop.'',
             trace := [Log Error ''! Errors occurred:'', Log Error ''Emergency stop.'',
                       Log Error (''! See '' @ [DQ] @ ''main.log'' @ [DQ] @ '' for details.'')]\<rparr>)"
    unfolding l1 l2 f1(2) by simp
  have c7: "fst (check_errors ?s2) = Inr ()"
    using c h6' f2 by simp
  have c8: "check_errors ?g = (Inr (), ?g)"
    using a h7 by simp
  have c9: "fst (main ?n [] (Some ''main.tex'') ex_opts ?p1) = Inl (SystemExit 1)"
    using d n(1) h8 by simp
  have c10: "fst (main ?e [] (Some ''main.tex'') ex_opts ?p1) = Inr ()"
    using d' n(2) h8' by simp
  have c11: "fst (main ?n [] None ex_opts ?p0) = Inl (SystemExit 2)"
    using a h9 by simp
  have c12: "fst (main ?e [] None ex_opts ?p2) = Inl (SystemExit 2)"
    using b h10 by simp
  have c13: "fst (main ?e [''b.tex''] (Some ''a.tex'') ex_opts ?p0) = Inl (SystemExit 2)"
    using u by simp
  from c1 c2 c3 c4 c5 c6 c7 c8 c9 c10 c11 c12 c13 show ?thesis by blast
qed

text \<open>
  C7 as stated fails for a project name that cannot be resolved: with no file name given and
  two \<^verbatim>\<open>.tex\<close> files in the working directory, the process ends with status 2 through
  \<^verbatim>\<open>parser.error\<close>; no \<^verbatim>\<open>LatexMkError\<close> is raised and the notice that \<^verbatim>\<open>main\<close> logs for
  that error type is not logged.
\<close>

theorem main_ambiguous_tex_counterexample:
  "main (ex_env [] []) [] None ex_opts
     \<lparr>world = \<lparr>nodes = [(''paper.tex'', File ''x'' 1), (''chapter.tex'', File ''y'' 1)], clock = 2\<rparr>,
      trace = []\<rparr>
     = (Inl (SystemExit 2),
        \<lparr>world = \<lparr>nodes = [(''paper.tex'', File ''x'' 1), (''chapter.tex'', File ''y'' 1)],
                  clock = 2\<rparr>,
         trace = [Stderr ''multiple *.tex files in current directory, specify only one'']\<rparr>)
   \<and> \<not> is_LatexMkError (fst (main (ex_env [] []) [] None ex_opts
         \<lparr>world = \<lparr>nodes = [(''paper.tex'', File ''x'' 1), (''chapter.tex'', File ''y'' 1)],
                   clock = 2\<rparr>, trace = []\<rparr>))
   \<and> Log Error ''! Exiting...'' \<notin> set (trace (snd (main (ex_env [] []) [] None ex_opts
         \<lparr>world = \<lparr>nodes = [(''paper.tex'', File ''x'' 1), (''chapter.tex'', File ''y'' 1)],
                   clock = 2\<rparr>, trace = []\<rparr>)))"
  by code_simp

section \<open>The check for entries that are not cited (C10)\<close>

lemma bind_ret: "bind m ret = m"
  by (auto simp: bind_def ret_def fun_eq_iff split: prod.splits sum.splits)

lemma run_build_split:
  "run_build e s0 =
     bind (run_until_bib e) (\<lambda>cite_counter.
     bind (need_bib_run e cite_counter) (\<lambda>needed.
     bind (if needed then bind (bibtex_run e) (\<lambda>_. latex_run e) else ret ()) (\<lambda>_.
     rerun_loop e))) s0"
proof -
  let ?s = "s0\<lparr>old_dir := (if opt_clean (opt s0) then listdir (world s0) else [])\<rparr>"
  let ?k = "\<lambda>cite_counter.
     bind (need_bib_run e cite_counter) (\<lambda>needed.
     bind (if needed then bind (bibtex_run e) (\<lambda>_. latex_run e) else ret ()) (\<lambda>_.
     rerun_loop e))"
  have r: "bind (ret x) f = f x" for x :: "(string \<times> counter) list" and f :: "_ \<Rightarrow> LatexMaker \<Rightarrow> (error + unit) \<times> LatexMaker"
    by (auto simp: bind_def ret_def fun_eq_iff)
  have "bind (\<lambda>s. run_until_bib e s0) ?k ?s =
        bind (bind (read_latex_files e) (\<lambda>(cite_counter, toc_sha, gloss_files).
     bind (latex_run e) (\<lambda>_.
     bind (read_glossaries e) (\<lambda>_.
     bind (makeindex_runs e gloss_files) (\<lambda>gloss_changed.
     bind (if gloss_changed then ret True else is_toc_changed toc_sha) (\<lambda>changed.
     bind (if changed then latex_run e else ret ()) (\<lambda>_.
     ret cite_counter))))))) ?k ?s"
    by (simp add: run_until_bib_def bind_def)
  also have "\<dots> = run_build e s0"
    unfolding run_build_def bind_assoc
    by (simp add: split_def bind_assoc r)
  finally have "bind (\<lambda>s. run_until_bib e s0) ?k ?s = run_build e s0" .
  moreover have "bind (\<lambda>s. run_until_bib e s0) ?k ?s = bind (run_until_bib e) ?k s0"
    by (simp add: bind_def)
  ultimately show ?thesis by simp
qed


lemma keeps_bib_ret: "keeps (\<lambda>s s'. bib_state s' = bib_state s) (ret x)"
  by (simp add: keeps_def ret_def)

lemma keeps_bib_raise: "keeps (\<lambda>s s'. bib_state s' = bib_state s) (raise err)"
  by (simp add: keeps_def raise_def)

lemma keeps_bib_ret_state: "keeps (\<lambda>s s'. bib_state s' = bib_state s) (\<lambda>s. ret (f s) s)"
  by (simp add: keeps_def ret_def)

lemma keeps_bib_lift: "keeps (\<lambda>s s'. bib_state s' = bib_state s) (lift f)"
  by (simp add: keeps_def lift_def)

lemma keeps_bib_bind:
  assumes "keeps (\<lambda>s s'. bib_state s' = bib_state s) m"
    and "\<And>x. keeps (\<lambda>s s'. bib_state s' = bib_state s) (f x)"
  shows "keeps (\<lambda>s s'. bib_state s' = bib_state s) (bind m f)"
proof (rule keepsI)
  fix s r s'
  assume "bind m f s = (r, s')"
  then show "bib_state s' = bib_state s"
  proof (cases rule: bindE)
    case (raised err)
    with assms(1) show ?thesis by (auto dest: keepsD)
  next
    case (returned x s1)
    with assms have "bib_state s1 = bib_state s" "bib_state s' = bib_state s1"
      by (auto dest: keepsD)
    then show ?thesis by simp
  qed
qed

lemma bib_state_log: "bib_state (log_msg lvl msg s) = bib_state s"
  by (simp add: bib_state_def bibtex_runs_def log_msg_def)

lemma bib_state_fatal: "fatal_error msg s = (r, s') \<Longrightarrow> bib_state s' = bib_state s"
  by (auto simp: fatal_error_def raise_def bib_state_log)

lemma bib_state_Popen:
  assumes "Popen e cmd s = Inr s2" and "length cmd \<noteq> 2"
  shows "bib_state s2 = bib_state s"
proof -
  from assms(2) have "\<not> (case Exec cmd of Exec [c, _] \<Rightarrow> c = ''bibtex'' | _ \<Rightarrow> False)"
    by (auto split: list.splits)
  with assms(1) show ?thesis
    by (auto simp: Popen_def bib_state_def bibtex_runs_def split: sum.splits)
qed

lemma keeps_bib_check_errors: "keeps (\<lambda>s s'. bib_state s' = bib_state s) check_errors"
  by (rule keepsI)
     (auto simp: check_errors_def Let_def bib_state_def bibtex_runs_def log_msg_def ret_def raise_def
           split: if_splits)

lemma keeps_bib_read_glossaries: "keeps (\<lambda>s s'. bib_state s' = bib_state s) (read_glossaries e)"
  by (rule keepsI)
     (auto simp: read_glossaries_def bib_state_def ret_def raise_def split: sum.splits)

lemma keeps_bib_is_toc_changed: "keeps (\<lambda>s s'. bib_state s' = bib_state s) (is_toc_changed sha)"
  by (rule keepsI) (auto simp: is_toc_changed_def ret_def raise_def split: if_splits)

lemma keeps_bib_latex_run: "keeps (\<lambda>s s'. bib_state s' = bib_state s) (latex_run e)"
proof (rule keepsI)
  fix s r s'
  assume run: "latex_run e s = (r, s')"
  define s1 where "s1 = log_msg Info (''Running '' @ latex_cmd s @ ''...'') s"
  have l: "bib_state s1 = bib_state s" unfolding s1_def by (rule bib_state_log)
  have "bib_state s' = bib_state s1"
  proof (cases "Popen e (latex_cmdline s1) s1")
    case (Inl msg)
    with run have "fatal_error (NO_LATEX_ERROR (latex_cmd s1)) s1 = (r, s')"
      by (simp add: latex_run_def Let_def s1_def)
    then show ?thesis by (rule bib_state_fatal)
  next
    case (Inr s2)
    define s3 where "s3 = s2\<lparr>latex_run_counter := latex_run_counter s2 + 1\<rparr>"
    have "bib_state s2 = bib_state s1"
      using Inr by (rule bib_state_Popen) (simp add: latex_cmdline_def LATEX_FLAGS_def)
    then have s3: "bib_state s3 = bib_state s1" by (simp add: s3_def bib_state_def)
    show ?thesis
    proof (cases "read_file e (project_name s3 @ ''.log'') (world s3)")
      case (Inl err)
      with run Inr have "s' = s3"
        by (simp add: latex_run_def Let_def raise_def s1_def s3_def)
      with s3 show ?thesis by simp
    next
      case (Inr content)
      with run \<open>Popen e (latex_cmdline s1) s1 = Inr s2\<close>
      have "check_errors (s3\<lparr>out := content\<rparr>) = (r, s')"
        by (simp add: latex_run_def Let_def s1_def s3_def)
      then have "bib_state s' = bib_state (s3\<lparr>out := content\<rparr>)"
        using keeps_bib_check_errors by (rule keepsD [rotated])
      with s3 show ?thesis by (simp add: bib_state_def)
    qed
  qed
  with l show "bib_state s' = bib_state s" by simp
qed

lemma keeps_bib_read_latex_files:
  "keeps (\<lambda>s s'. bib_state s' = bib_state s) (read_latex_files e)"
  unfolding read_latex_files_def
  by (intro keeps_bib_bind keeps_cond keeps_bib_lift keeps_bib_read_glossaries keeps_bib_ret
            keeps_bib_raise keeps_bib_ret_state)

lemma bib_state_makeindex_loop:
  "makeindex_loop e gf gs changed s = (r, s') \<Longrightarrow> bib_state s' = bib_state s"
proof (induction gs arbitrary: changed s)
  case Nil
  then show ?case by (simp add: ret_def)
next
  case (Cons g gs)
  obtain gloss ext_i ext_o where g: "g = (gloss, ext_i, ext_o)" by (cases g) auto
  define fname_in where "fname_in = project_name s @ ''.'' @ ext_i"
  define fname_out where "fname_out = project_name s @ ''.'' @ ext_o"
  define s1 where "s1 = log_msg Info (''Running makeindex ('' @ gloss @ '')...'') s"
  note unf = makeindex_loop.simps(2) [of e gf gloss ext_i ext_o gs changed s,
      unfolded Let_def, folded fname_in_def fname_out_def s1_def, folded g]
  have l: "bib_state s1 = bib_state s" unfolding s1_def by (rule bib_state_log)
  show ?case
  proof (cases "make_gloss e gf gloss fname_in fname_out s")
    case (Inl err)
    with Cons.prems unf show ?thesis by (simp add: raise_def)
  next
    case mk: (Inr make)
    show ?thesis
    proof (cases make)
      case False
      with Cons.prems unf mk have "makeindex_loop e gf gs changed s = (r, s')"
        by simp
      then show ?thesis by (rule Cons.IH)
    next
      case True
      show ?thesis
      proof (cases "Popen e (makeindex_cmdline s1 fname_in fname_out) s1")
        case (Inl msg)
        with Cons.prems unf mk True
        have "fatal_error (NO_LATEX_ERROR ''makeindex'') s1 = (r, s')" by simp
        then have "bib_state s' = bib_state s1" by (rule bib_state_fatal)
        with l show ?thesis by simp
      next
        case (Inr s2)
        then have "bib_state s2 = bib_state s1"
          by (rule bib_state_Popen) (simp add: makeindex_cmdline_def)
        with l have a: "bib_state s2 = bib_state s" by simp
        from Cons.prems unf mk True Inr
        have "makeindex_loop e gf gs True s2 = (r, s')" by simp
        then have "bib_state s' = bib_state s2" by (rule Cons.IH)
        with a show ?thesis by simp
      qed
    qed
  qed
qed

lemma keeps_bib_makeindex_runs:
  "keeps (\<lambda>s s'. bib_state s' = bib_state s) (makeindex_runs e gf)"
  by (rule keepsI) (auto simp: makeindex_runs_def dest: bib_state_makeindex_loop)

lemma bib_state_rerun_loop:
  "rerun_loop e s = (r, s') \<Longrightarrow> bib_state s' = bib_state s"
proof (induction e s rule: rerun_loop.induct)
  case (1 e s)
  show ?case
  proof (cases "latex_run_counter s < MAX_RUNS \<and> need_latex_rerun s")
    case False
    with "1.prems" have "s' = s" by (auto simp: ret_def split: if_splits)
    then show ?thesis by simp
  next
    case True
    obtain r1 s1 where lr: "latex_run e s = (r1, s1)" by (cases "latex_run e s")
    then have w1: "bib_state s1 = bib_state s"
      using keeps_bib_latex_run by (rule keepsD [rotated])
    show ?thesis
    proof (cases r1)
      case (Inl err)
      with "1.prems" True lr have "s' = s1" by simp
      with w1 show ?thesis by simp
    next
      case (Inr x)
      from "1.prems" True lr Inr have "rerun_loop e s1 = (r, s')" by simp
      with "1.IH" True lr Inr have "bib_state s' = bib_state s1" by auto
      with w1 show ?thesis by simp
    qed
  qed
qed

lemma bib_state_run_until_bib:
  assumes "run_until_bib e s0 = (r, s1)"
  shows "bib_state s1 = bib_state s0"
proof -
  let ?s = "s0\<lparr>old_dir := (if opt_clean (opt s0) then listdir (world s0) else [])\<rparr>"
  have "keeps (\<lambda>s s'. bib_state s' = bib_state s)
          (bind (read_latex_files e) (\<lambda>(cite_counter, toc_sha, gloss_files).
           bind (latex_run e) (\<lambda>_.
           bind (read_glossaries e) (\<lambda>_.
           bind (makeindex_runs e gloss_files) (\<lambda>gloss_changed.
           bind (if gloss_changed then ret True else is_toc_changed toc_sha) (\<lambda>changed.
           bind (if changed then latex_run e else ret ()) (\<lambda>_.
           ret cite_counter)))))))"
    unfolding split_def
    by (intro keeps_bib_bind keeps_bib_read_latex_files keeps_bib_latex_run
              keeps_bib_read_glossaries keeps_bib_makeindex_runs)
       (auto intro: keeps_bib_ret keeps_bib_is_toc_changed keeps_bib_latex_run)
  from keepsD [OF this assms [unfolded run_until_bib_def]]
  show ?thesis by (simp add: bib_state_def)
qed

lemma LatexMaker_init_fields:
  assumes "LatexMaker_init e f opts p = (Inr s0, p')"
  shows "opt s0 = opts \<and> bib_file s0 = [] \<and> latex_run_counter s0 = 0 \<and> glossaries s0 = []"
  using assms
  by (auto simp: LatexMaker_init_def split: prod.splits sum.splits)

text \<open>
  C10. The object is as \<^verbatim>\<open>__init__\<close> built it and the check for entries that are not cited
  is requested. The statements of \<^verbatim>\<open>run\<close> before the bibliography decision have returned,
  and the main auxiliary file that \<^verbatim>\<open>_need_bib_run\<close> then reads holds no \<^verbatim>\<open>\bibdata\<close>
  directive. Then \<^verbatim>\<open>_need_bib_run\<close> returns false with the object untouched and the build
  goes on with the rerun loop alone: when the build returns, \<^verbatim>\<open>bib_file\<close> is still the empty
  string and no \<^verbatim>\<open>bibtex\<close> process was run. The check then opens the file named \<^verbatim>\<open>.bib\<close>,
  and the error of reading it (\<^verbatim>\<open>OSError\<close> when there is no such file) leaves \<^verbatim>\<open>run\<close> and
  \<^verbatim>\<open>main\<close> as it is, in the state the build left: it is no \<^verbatim>\<open>LatexMkError\<close>, so
  \<^verbatim>\<open>main\<close> does not catch it, nothing is logged about it and the check is not skipped.
\<close>

theorem check_cite_without_bibdata:
  assumes init: "LatexMaker_init e f opts q = (Inr s0, q')"
    and cite: "opt_check_cite opts"
    and first: "run_until_bib e s0 = (Inr cite_counter, s1)"
    and aux: "read_file e (project_name s1 @ ''.aux'') (world s1) = Inr aux"
    and nobib: "re_search BIB_PATTERN aux = None"
    and build: "run_build e s0 = (Inr x, s2)"
    and aux2: "read_file e (project_name s2 @ ''.aux'') (world s2) = Inr aux2"
    and bib: "read_file e ''.bib'' (world s2) = Inl err"
  shows "need_bib_run e cite_counter s1 = (Inr False, s1)
       \<and> rerun_loop e s1 = (Inr x, s2)
       \<and> bib_file s2 = []
       \<and> bibtex_runs (trace s2) = bibtex_runs (trace s0)
       \<and> run_check_cite e s2 = (Inl err, s2)
       \<and> run e s0 = (Inl err, s2)
       \<and> \<not> is_LatexMkError (Inl err :: error + unit)
       \<and> (\<not> isfile ''.bib'' (world s2) \<longrightarrow> err = OSError ''.bib'')
       \<and> construct_and_run e f opts q = (Inl err, proc.truncate s2)
       \<and> (q = log_msg Debug (''arguments: '' @ str_args e f opts) p
            \<and> (opt_notify opts \<longrightarrow> notify2_loaded e) \<longrightarrow>
          main e [] (Some f) opts p = (Inl err, proc.truncate s2))"
proof -
  from LatexMaker_init_fields [OF init] have o: "opt s0 = opts" and b0: "bib_file s0 = []"
    by simp_all
  have n: "need_bib_run e cite_counter s1 = (Inr False, s1)"
    using aux nobib by (simp add: need_bib_run_def ret_def)
  have "run_build e s0 =
          bind (need_bib_run e cite_counter) (\<lambda>needed.
          bind (if needed then bind (bibtex_run e) (\<lambda>_. latex_run e) else ret ()) (\<lambda>_.
          rerun_loop e)) s1"
    unfolding run_build_split using first by (rule bind_Inr)
  also have "\<dots> = bind (ret ()) (\<lambda>_. rerun_loop e) s1"
    by (simp only: bind_Inr [where m = "need_bib_run e cite_counter", OF n] if_False)
  also have "\<dots> = rerun_loop e s1"
    by (simp add: bind_def ret_def del: rerun_loop.simps)
  finally have "run_build e s0 = rerun_loop e s1" .
  with build have l: "rerun_loop e s1 = (Inr x, s2)" by simp
  have "bib_state s2 = bib_state s0"
    using bib_state_rerun_loop [OF l] bib_state_run_until_bib [OF first] by simp
  then have b2: "bib_file s2 = []" and t2: "bibtex_runs (trace s2) = bibtex_runs (trace s0)"
    using b0 by (simp_all add: bib_state_def)
  have "opt s2 = opt s0" using run_build_within [OF build] by simp
  with o cite have cc: "opt_check_cite (opt s2)" by simp
  have c: "run_check_cite e s2 = (Inl err, s2)"
    using cc aux2 bib b2 by (simp add: run_check_cite_def Let_def raise_def)
  have r: "run e s0 = (Inl err, s2)"
    using build c by (simp add: run_def bind_def)
  from read_file_errors [OF bib]
  have k: "err = OSError ''.bib'' \<or> (\<exists>bytes. err = UnicodeDecodeError bytes)" by blast
  then have nl: "\<not> is_LatexMkError (Inl err :: error + unit)" by auto
  have nf: "\<not> isfile ''.bib'' (world s2) \<longrightarrow> err = OSError ''.bib''"
    using read_file_errors [OF bib] by blast
  have cr: "construct_and_run e f opts q = (Inl err, proc.truncate s2)"
    using init r by (simp add: construct_and_run_def)
  have m: "main e [] (Some f) opts p = (Inl err, proc.truncate s2)"
    if "q = log_msg Debug (''arguments: '' @ str_args e f opts) p"
      and "opt_notify opts \<longrightarrow> notify2_loaded e"
    using main_given_file [OF cr [unfolded that(1)] that(2)] nl by simp
  from n l b2 t2 c r nl nf cr m show ?thesis by blast
qed


theorem check_cite_without_bibdata_witness:
  "fst (main (ex_env [] (BSL # ''relax'' @ [NL])) [] (Some ''main.tex'') ex_cite_opts
         \<lparr>world = \<lparr>nodes = [(''main.tex'', File ''x'' 1)], clock = 2\<rparr>, trace = []\<rparr>)
     = Inl (OSError ''.bib'')
   \<and> exit_status (fst (main (ex_env [] (BSL # ''relax'' @ [NL])) [] (Some ''main.tex'') ex_cite_opts
         \<lparr>world = \<lparr>nodes = [(''main.tex'', File ''x'' 1)], clock = 2\<rparr>, trace = []\<rparr>)) = 1
   \<and> bibtex_runs (trace (snd (main (ex_env [] (BSL # ''relax'' @ [NL])) [] (Some ''main.tex'')
         ex_cite_opts \<lparr>world = \<lparr>nodes = [(''main.tex'', File ''x'' 1)], clock = 2\<rparr>, trace = []\<rparr>)))
       = 0
   \<and> re_search BIB_PATTERN (BSL # ''relax'' @ [NL]) = None"
proof -
  let ?e = "ex_env [] (BSL # ''relax'' @ [NL])"
  let ?p = "\<lparr>world = \<lparr>nodes = [(''main.tex'', File ''x'' 1)], clock = 2\<rparr>, trace = []\<rparr>"
  let ?q = "log_msg Debug (''arguments: '' @ str_args ?e ''main.tex'' ex_cite_opts) ?p"
  let ?s0 = "(ex_maker ex_cite_opts \<lparr>nodes = [(''main.tex'', File ''x'' 1)], clock = 2\<rparr>)
               \<lparr>trace := trace ?q\<rparr>"
  let ?s1 = "snd (run_until_bib ?e ?s0)"
  let ?s2 = "snd (run_build ?e ?s0)"
  have i: "LatexMaker_init ?e ''main.tex'' ex_cite_opts ?q = (Inr ?s0, ?q)"
    by (simp add: LatexMaker_init_def ret_def endswith_def ex_maker_def ex_cite_opts_def ex_opts_def
                  log_msg_def)
  have n: "opt_notify ex_cite_opts \<longrightarrow> notify2_loaded ?e"
    by (simp add: ex_cite_opts_def ex_opts_def)
  have c: "opt_check_cite ex_cite_opts" by (simp add: ex_cite_opts_def)
  have "fst (run_until_bib ?e ?s0) = Inr [(''main.aux'', [])]" by code_simp
  then have f: "run_until_bib ?e ?s0 = (Inr [(''main.aux'', [])], ?s1)" by (simp add: prod_eq_iff)
  have a: "read_file ?e (project_name ?s1 @ ''.aux'') (world ?s1) = Inr (BSL # ''relax'' @ [NL])"
    by code_simp
  have none: "re_search BIB_PATTERN (BSL # ''relax'' @ [NL]) = None" by code_simp
  have "fst (run_build ?e ?s0) = Inr ()" by code_simp
  then have b: "run_build ?e ?s0 = (Inr (), ?s2)" by (simp add: prod_eq_iff)
  have a2: "read_file ?e (project_name ?s2 @ ''.aux'') (world ?s2) = Inr (BSL # ''relax'' @ [NL])"
    by code_simp
  have nb: "read_file ?e ''.bib'' (world ?s2) = Inl (OSError ''.bib'')" by code_simp
  have t0: "bibtex_runs (trace ?s0) = 0" by code_simp
  from check_cite_without_bibdata [OF i c f a none b a2 nb, of ?p] n t0
  have "main ?e [] (Some ''main.tex'') ex_cite_opts ?p = (Inl (OSError ''.bib''), proc.truncate ?s2)"
    and "bibtex_runs (trace ?s2) = 0"
    by simp_all
  with none show ?thesis by (simp add: exit_status_def proc.truncate_def)
qed

end
